theory Spec2Isabelle
  imports Complex_Main "HOL-Library.AList"
begin

section \<open>Data model of server.js\<close>

text \<open>
  The session engine of \<^verbatim>\<open>server.js\<close>: the \<^verbatim>\<open>Player\<close> and \<^verbatim>\<open>Match\<close> classes, the
  process-wide registries \<^verbatim>\<open>matches\<close>, \<^verbatim>\<open>players\<close> and \<^verbatim>\<open>queues\<close>, the four socket
  handlers, \<^verbatim>\<open>matchPlayers\<close> and \<^verbatim>\<open>handleGameOver\<close>.

  Conventions of the embedding.
  \<^item> Socket ids, the values of \<^verbatim>\<open>uuidv4()\<close> and the ids of the \<^verbatim>\<open>users\<close> table are natural
    numbers. \<^verbatim>\<open>uuidv4()\<close> reads a counter of the server state.
  \<^item> \<^verbatim>\<open>Date.now()\<close> and \<^verbatim>\<open>Math.random() < 0.5\<close> are arguments of the handler that reads them.
  \<^item> A JavaScript number is the rational that the IEEE 754 double denotes, and the
    arithmetic of \<^verbatim>\<open>handleGameOver\<close> rounds as that of doubles does (\<open>to_double\<close>). The store
    adds and records the numbers it is passed: the text in which the driver passes a
    number and what a \<^verbatim>\<open>DECIMAL(10, 2)\<close> column keeps of it are not modelled, so the
    theorems say nothing on the digits a column holds.
  \<^item> A handler runs from its first statement to its last without another handler in
    between, and a statement of the store never fails. An \<^verbatim>\<open>UPDATE ... WHERE id = x\<close>
    changes nothing where no row has that id. For \<^verbatim>\<open>make_move\<close> the part before the first
    \<^verbatim>\<open>await\<close> is a function of its own, so that the state another event can meet at that
    point can be named.
  \<^item> Socket ids and account ids are truthy, as the non-empty strings of the code are.
  \<^item> \<^verbatim>\<open>io.to(s).emit(...)\<close> appends to an outbox, in order.
\<close>

type_synonym socket_id = nat
type_synonym uuid = nat
type_synonym db_id = nat

datatype color = White | Black

datatype winner = WWhite | WBlack | WDraw

datatype reason = Timeout | Checkmate | RDraw

record game_result =
  winner :: winner
  reason :: reason

datatype status = Active | Finished

record clock =
  whiteMs :: int
  blackMs :: int
  lastMoveTs :: int

subsection \<open>The rules oracle\<close>

text \<open>
  \<^verbatim>\<open>chess.js\<close> is not part of the repository. A \<^verbatim>\<open>Chess\<close> object is a value of a type
  \<open>'p\<close>, and the library is a record of the functions the server calls on it:
  \<^verbatim>\<open>new Chess()\<close>, \<^verbatim>\<open>move({from, to, promotion})\<close> (\<open>None\<close> where the server sees a falsy
  result, otherwise the object after the move), \<^verbatim>\<open>fen()\<close>, \<^verbatim>\<open>turn()\<close>, \<^verbatim>\<open>isCheckmate()\<close>
  and \<^verbatim>\<open>isDraw()\<close>.
\<close>

record 'p chess_js =
  chess_new :: 'p
  chess_move :: "'p \<Rightarrow> string \<Rightarrow> string \<Rightarrow> string option \<Rightarrow> 'p option"
  chess_fen :: "'p \<Rightarrow> string"
  chess_turn :: "'p \<Rightarrow> color"
  chess_isCheckmate :: "'p \<Rightarrow> bool"
  chess_isDraw :: "'p \<Rightarrow> bool"

subsection \<open>class Match\<close>

record 'p Match =
  matchId :: uuid
  players_white :: uuid
  players_black :: uuid
  whiteDbId :: "db_id option"
  blackDbId :: "db_id option"
  gameMode :: string
  entryFee :: rat
  chess :: 'p
  fen :: string
  turn :: color
  status :: status
  clock :: clock
  result :: "game_result option"

text \<open>The time control of the constructor, in milliseconds.\<close>

definition timeMs :: "string \<Rightarrow> int" where
  "timeMs mode =
     (if mode = ''BLITZ'' then 180000
      else if mode = ''RAPID'' then 300000
      else if mode = ''CLASSICAL'' then 600000
      else 60000)"

definition new_Match ::
  "'p chess_js \<Rightarrow> int \<Rightarrow> uuid \<Rightarrow> uuid \<Rightarrow> uuid \<Rightarrow> db_id option \<Rightarrow> db_id option \<Rightarrow> string \<Rightarrow> rat
     \<Rightarrow> 'p Match" where
  "new_Match E now mid whitePlayerId blackPlayerId wDb bDb mode fee =
     \<lparr> matchId = mid, players_white = whitePlayerId, players_black = blackPlayerId,
       whiteDbId = wDb, blackDbId = bDb, gameMode = mode, entryFee = fee,
       chess = chess_new E, fen = chess_fen E (chess_new E), turn = White, status = Active,
       clock = \<lparr> whiteMs = timeMs mode, blackMs = timeMs mode, lastMoveTs = now \<rparr>,
       result = None \<rparr>"

text \<open>
  \<^verbatim>\<open>updateClock()\<close>: the side charged is \<^verbatim>\<open>this.turn\<close> as it stands when the method runs.
  The second component is the returned boolean.
\<close>

definition charge :: "color \<Rightarrow> int \<Rightarrow> clock \<Rightarrow> clock" where
  "charge side elapsed c =
     (if side = White then c\<lparr> whiteMs := max 0 (whiteMs c - elapsed) \<rparr>
      else c\<lparr> blackMs := max 0 (blackMs c - elapsed) \<rparr>)"

definition updateClock :: "int \<Rightarrow> 'p Match \<Rightarrow> 'p Match \<times> bool" where
  "updateClock now m =
     (let elapsed = now - lastMoveTs (clock m);
          c = (charge (turn m) elapsed (clock m))\<lparr> lastMoveTs := now \<rparr>;
          m1 = m\<lparr> clock := c \<rparr>
      in if whiteMs c = 0
         then (m1\<lparr> status := Finished,
                    result := Some \<lparr> winner = WBlack, reason = Timeout \<rparr> \<rparr>, True)
         else if blackMs c = 0
         then (m1\<lparr> status := Finished,
                    result := Some \<lparr> winner = WWhite, reason = Timeout \<rparr> \<rparr>, True)
         else (m1, False))"

text \<open>
  \<^verbatim>\<open>makeMove(from, to, promotion)\<close>: \<open>Inl\<close> is \<^verbatim>\<open>{ success: false, reason }\<close>, with the match
  untouched; \<open>Inr\<close> is \<^verbatim>\<open>{ success: true }\<close> with the match as the method leaves it. The
  method reads neither \<^verbatim>\<open>status\<close> nor \<^verbatim>\<open>result\<close>.
\<close>

definition makeMove ::
  "'p chess_js \<Rightarrow> int \<Rightarrow> 'p Match \<Rightarrow> string \<Rightarrow> string \<Rightarrow> string option \<Rightarrow> string + 'p Match" where
  "makeMove E now m from to promotion =
     (case chess_move E (chess m) from to promotion of
        None \<Rightarrow> Inl ''Invalid move''
      | Some p \<Rightarrow>
          (let m1 = m\<lparr> chess := p, fen := chess_fen E p, turn := chess_turn E p \<rparr>;
               m2 = fst (updateClock now m1)
           in if chess_isCheckmate E p
              then Inr (m2\<lparr> result := Some \<lparr> winner = (if chess_turn E p = White then WBlack
                                                         else WWhite),
                                              reason = Checkmate \<rparr>,
                             status := Finished \<rparr>)
              else if chess_isDraw E p
              then Inr (m2\<lparr> result := Some \<lparr> winner = WDraw, reason = RDraw \<rparr>,
                             status := Finished \<rparr>)
              else Inr m2))"

subsection \<open>class Player and the values a client sends\<close>

text \<open>
  A \<^verbatim>\<open>userId\<close> of a payload is \<^verbatim>\<open>undefined\<close>, \<^verbatim>\<open>null\<close> or the id of an account. The
  constructor's default \<^verbatim>\<open>dbId = null\<close> replaces \<^verbatim>\<open>undefined\<close> only, and
  \<^verbatim>\<open>username = 'Guest'\<close> likewise, so a player's \<^verbatim>\<open>dbId\<close> is \<open>None\<close> (\<^verbatim>\<open>null\<close>) or an id.
  The fields \<^verbatim>\<open>gameMode\<close> and \<^verbatim>\<open>entryFee\<close> that \<^verbatim>\<open>join_queue\<close> adds to the object are
  \<open>p_gameMode\<close> and \<open>p_entryFee\<close>.
\<close>

datatype js_user = Undefined | Null | UserId db_id

record Player =
  playerId :: uuid
  socketId :: socket_id
  dbId :: "db_id option"
  username :: string
  color :: "color option"
  currentGameId :: "uuid option"
  p_gameMode :: "string option"
  p_entryFee :: "rat option"

definition new_Player :: "uuid \<Rightarrow> socket_id \<Rightarrow> js_user \<Rightarrow> string option \<Rightarrow> Player" where
  "new_Player pid sid userId uname =
     \<lparr> playerId = pid, socketId = sid,
       dbId = (case userId of UserId u \<Rightarrow> Some u | _ \<Rightarrow> None),
       username = (case uname of None \<Rightarrow> ''Guest'' | Some n \<Rightarrow> n),
       color = None, currentGameId = None, p_gameMode = None, p_entryFee = None \<rparr>"

text \<open>\<^verbatim>\<open>p.dbId === userId\<close>, for a \<^verbatim>\<open>dbId\<close> that is \<^verbatim>\<open>null\<close> or an id.\<close>

fun strict_eq :: "db_id option \<Rightarrow> js_user \<Rightarrow> bool" where
  "strict_eq None Null = True"
| "strict_eq (Some a) (UserId b) = (a = b)"
| "strict_eq _ _ = False"

record join_data =
  jd_userId :: js_user
  jd_gameMode :: "string option"
  jd_entryFee :: "rat option"
  jd_username :: "string option"

record move_data =
  md_matchId :: uuid
  md_from :: string
  md_to :: string
  md_promotion :: "string option"

text \<open>
  \<^verbatim>\<open>data.gameMode || 'BULLET'\<close> and \<^verbatim>\<open>parseFloat(data.entryFee) || 10.0\<close>: \<open>None\<close> is a missing
  mode, respectively an entry fee that parses to \<^verbatim>\<open>NaN\<close>; the empty string and zero are falsy.
\<close>

definition mode_of :: "join_data \<Rightarrow> string" where
  "mode_of d = (case jd_gameMode d of None \<Rightarrow> ''BULLET'' | Some m \<Rightarrow> if m = [] then ''BULLET'' else m)"

definition fee_of :: "join_data \<Rightarrow> rat" where
  "fee_of d = (case jd_entryFee d of None \<Rightarrow> 10 | Some f \<Rightarrow> if f = 0 then 10 else f)"

subsection \<open>The persistent store\<close>

record user_row =
  wallet_balance :: rat
  rating :: int
  wins :: int
  losses :: int
  draws :: int

datatype description = RefundDraw uuid | WonMatch uuid | EntryFeeOf string | CompanyCut uuid

record transaction =
  tx_id :: uuid
  tx_user_id :: "db_id option"
  tx_amount :: rat
  tx_type :: string
  tx_description :: description

record company_earning =
  ce_id :: uuid
  ce_match_id :: uuid
  ce_amount :: rat
  ce_description :: description

record match_row =
  white_player_id :: "db_id option"
  black_player_id :: "db_id option"
  entry_fee :: rat
  stake_amount :: rat
  winner_id :: "db_id option"
  result_reason :: "reason option"
  ended :: bool

record store =
  users :: "db_id \<rightharpoonup> user_row"
  transactions :: "transaction list"
  company_earnings :: "company_earning list"
  match_rows :: "uuid \<rightharpoonup> match_row"

text \<open>\<^verbatim>\<open>UPDATE users SET ... WHERE id = $1\<close>: no row has the id \<^verbatim>\<open>NULL\<close>.\<close>

definition update_user :: "db_id option \<Rightarrow> (user_row \<Rightarrow> user_row) \<Rightarrow> store \<Rightarrow> store" where
  "update_user uid f s =
     (case uid of
        None \<Rightarrow> s
      | Some u \<Rightarrow> (case users s u of None \<Rightarrow> s | Some r \<Rightarrow> s\<lparr> users := (users s)(u \<mapsto> f r) \<rparr>))"

definition update_match_row :: "uuid \<Rightarrow> (match_row \<Rightarrow> match_row) \<Rightarrow> store \<Rightarrow> store" where
  "update_match_row mid f s =
     (case match_rows s mid of
        None \<Rightarrow> s
      | Some r \<Rightarrow> s\<lparr> match_rows := (match_rows s)(mid \<mapsto> f r) \<rparr>)"

definition add_balance :: "db_id option \<Rightarrow> rat \<Rightarrow> store \<Rightarrow> store" where
  "add_balance uid amount = update_user uid (\<lambda>r. r\<lparr> wallet_balance := wallet_balance r + amount \<rparr>)"

subsection \<open>The server state\<close>

datatype message = YouWon rat | BetterLuck

datatype out_event =
    MatchFound uuid color string clock string
  | MoveResult string color int int string string "string option"
  | IllegalMove string
  | GameOver game_result rat "rat option" message
  | ErrorMessage rat rat
  | ForceDisconnect

text \<open>
  \<^verbatim>\<open>players\<close> is a JavaScript \<^verbatim>\<open>Map\<close> and \<^verbatim>\<open>queues\<close> an object: both keep insertion order, so
  both are association lists. \<^verbatim>\<open>matches\<close> is only read by key.
\<close>

record 'p server =
  matches :: "uuid \<rightharpoonup> 'p Match"
  players :: "(socket_id \<times> Player) list"
  queues :: "(string \<times> uuid list) list"
  db :: store
  outbox :: "(socket_id \<times> out_event) list"
  next_uuid :: nat

definition init_server :: "store \<Rightarrow> 'p server" where
  "init_server s =
     \<lparr> matches = Map.empty, players = [],
       queues = [(''BULLET'', []), (''BLITZ'', []), (''RAPID'', []), (''CLASSICAL'', []),
                 (''TOURNAMENT'', [])],
       db = s, outbox = [], next_uuid = 0 \<rparr>"

definition uuidv4 :: "'p server \<Rightarrow> uuid \<times> 'p server" where
  "uuidv4 st = (next_uuid st, st\<lparr> next_uuid := Suc (next_uuid st) \<rparr>)"

definition emit :: "socket_id \<Rightarrow> out_event \<Rightarrow> 'p server \<Rightarrow> 'p server" where
  "emit sid ev st = st\<lparr> outbox := outbox st @ [(sid, ev)] \<rparr>"

text \<open>\<^verbatim>\<open>Array.from(players.values()).find(p => p.playerId === pid)\<close>.\<close>

definition find_player :: "'p server \<Rightarrow> uuid \<Rightarrow> Player option" where
  "find_player st pid = find (\<lambda>p. playerId p = pid) (map snd (players st))"

definition emit_to_player :: "uuid \<Rightarrow> out_event \<Rightarrow> 'p server \<Rightarrow> 'p server" where
  "emit_to_player pid ev st =
     (case find_player st pid of None \<Rightarrow> st | Some p \<Rightarrow> emit (socketId p) ev st)"

definition insert_transaction ::
  "db_id option \<Rightarrow> rat \<Rightarrow> string \<Rightarrow> description \<Rightarrow> 'p server \<Rightarrow> 'p server" where
  "insert_transaction uid amount ty descr st =
     (case uuidv4 st of
        (i, st1) \<Rightarrow>
          st1\<lparr> db := (db st1)\<lparr> transactions := transactions (db st1) @
                 [\<lparr> tx_id = i, tx_user_id = uid, tx_amount = amount, tx_type = ty,
                    tx_description = descr \<rparr>] \<rparr> \<rparr>)"

definition insert_company_earning :: "uuid \<Rightarrow> rat \<Rightarrow> description \<Rightarrow> 'p server \<Rightarrow> 'p server" where
  "insert_company_earning mid amount descr st =
     (case uuidv4 st of
        (i, st1) \<Rightarrow>
          st1\<lparr> db := (db st1)\<lparr> company_earnings := company_earnings (db st1) @
                 [\<lparr> ce_id = i, ce_match_id = mid, ce_amount = amount,
                    ce_description = descr \<rparr>] \<rparr> \<rparr>)"

definition on_db :: "(store \<Rightarrow> store) \<Rightarrow> 'p server \<Rightarrow> 'p server" where
  "on_db f st = st\<lparr> db := f (db st) \<rparr>"

section \<open>JavaScript numbers\<close>

text \<open>
  A finite double is a rational \<open>n * 2 ^ (e - 52)\<close> with \<open>\<bar>n\<bar> \<le> 2 ^ 53\<close> and
  \<open>- 1022 \<le> e \<le> 1023\<close>, and an operation of JavaScript on doubles returns the double
  nearest to the exact result, the one with the even \<open>n\<close> where two are equally near.
  \<open>exponent2 x\<close> is the \<open>e\<close> with \<open>2 ^ e \<le> x < 2 ^ (e + 1)\<close>, for a positive \<open>x\<close>. Below
  \<open>2 ^ (- 1022)\<close> the spacing stays that of \<open>e = - 1022\<close>. A result beyond the largest
  double, which is \<^verbatim>\<open>Infinity\<close> in JavaScript, and \<^verbatim>\<open>NaN\<close> are not modelled.
\<close>

fun bit_length :: "nat \<Rightarrow> nat" where
  "bit_length n = (if n = 0 then 0 else Suc (bit_length (n div 2)))"

declare bit_length.simps [simp del]

definition exponent2 :: "rat \<Rightarrow> int" where
  "exponent2 x =
     (if 1 \<le> x then int (bit_length (nat \<lfloor>x\<rfloor>)) - 1
      else (let y = 1 / x; f = int (bit_length (nat \<lfloor>y\<rfloor>)) - 1
            in if y = 2 powi f then - f else - f - 1))"

definition round_half_even :: "rat \<Rightarrow> int" where
  "round_half_even q =
     (let f = \<lfloor>q\<rfloor>; r = q - of_int f
      in if r < 1 / 2 then f else if 1 / 2 < r then f + 1 else if even f then f else f + 1)"

definition to_double :: "rat \<Rightarrow> rat" where
  "to_double x =
     (if x = 0 then 0
      else (let e = max (exponent2 \<bar>x\<bar>) (- 1022); ulp = 2 powi (e - 52)
            in of_int (round_half_even (x / ulp)) * ulp))"

text \<open>\<^verbatim>\<open>a * b\<close> and \<^verbatim>\<open>a + b\<close> on numbers.\<close>

definition js_times :: "rat \<Rightarrow> rat \<Rightarrow> rat" where
  "js_times a b = to_double (a * b)"

definition js_plus :: "rat \<Rightarrow> rat \<Rightarrow> rat" where
  "js_plus a b = to_double (a + b)"

section \<open>Settlement: handleGameOver\<close>

datatype error = TypeError

text \<open>
  The draw branch of \<^verbatim>\<open>handleGameOver\<close>, for one side: nothing where the side has no
  \<^verbatim>\<open>dbId\<close>.
\<close>

definition refund_side :: "db_id option \<Rightarrow> rat \<Rightarrow> uuid \<Rightarrow> 'p server \<Rightarrow> 'p server" where
  "refund_side uid fee mid st =
     (case uid of
        None \<Rightarrow> st
      | Some u \<Rightarrow>
          on_db (update_user (Some u) (\<lambda>r. r\<lparr> draws := draws r + 1 \<rparr>))
            (insert_transaction (Some u) fee ''refund'' (RefundDraw mid)
              (on_db (add_balance (Some u) fee) st)))"

text \<open>
  \<^verbatim>\<open>handleGameOver(match)\<close>. With \<^verbatim>\<open>match.result\<close> still \<^verbatim>\<open>null\<close> the first test succeeds and
  \<^verbatim>\<open>match.result.reason\<close> throws. The branch of a draw returns before the code that emits
  \<^verbatim>\<open>game_over\<close>. The literals \<^verbatim>\<open>0.70\<close> and \<^verbatim>\<open>0.30\<close> are the doubles nearest to \<open>7 / 10\<close> and
  \<open>3 / 10\<close>, and \<^verbatim>\<open>entryFee * 0.70\<close>, \<^verbatim>\<open>entryFee * 0.30\<close> and \<^verbatim>\<open>entryFee + winnings\<close> are
  operations on doubles.
\<close>

definition handleGameOver :: "'p server \<Rightarrow> 'p Match \<Rightarrow> error + 'p server" where
  "handleGameOver st m =
     (case result m of
        None \<Rightarrow> Inl TypeError
      | Some r \<Rightarrow>
          if winner r = WDraw then
            (if reason r = RDraw then
               (let fee = (if entryFee m = 0 then 10 else entryFee m);
                    st1 = refund_side (whiteDbId m) fee (matchId m) st;
                    st2 = refund_side (blackDbId m) fee (matchId m) st1
                in Inr (on_db (update_match_row (matchId m)
                          (\<lambda>row. row\<lparr> ended := True, result_reason := Some RDraw \<rparr>)) st2))
             else Inr st)
          else
            (let winnerId = (if winner r = WWhite then whiteDbId m else blackDbId m);
                 loserId = (if winner r = WWhite then blackDbId m else whiteDbId m);
                 fee = entryFee m;
                 st1 = on_db (update_user winnerId
                         (\<lambda>u. u\<lparr> wins := wins u + 1, rating := rating u + 10 \<rparr>)) st;
                 st2 = on_db (update_user loserId
                         (\<lambda>u. u\<lparr> losses := losses u + 1, rating := max 0 (rating u - 10) \<rparr>)) st1;
                 winnings = js_times fee (to_double (7 / 10));
                 companyCut = js_times fee (to_double (3 / 10));
                 totalReturn = js_plus fee winnings;
                 st3 = on_db (update_match_row (matchId m)
                         (\<lambda>row. row\<lparr> ended := True, winner_id := winnerId,
                                      result_reason := Some (reason r) \<rparr>)) st2;
                 st4 = on_db (add_balance winnerId totalReturn) st3;
                 st5 = insert_transaction winnerId totalReturn ''winnings'' (WonMatch (matchId m)) st4;
                 st6 = insert_company_earning (matchId m) companyCut (CompanyCut (matchId m)) st5;
                 winnerPlayerId = (if winner r = WWhite then players_white m else players_black m);
                 loserPlayerId = (if winner r = WWhite then players_black m else players_white m);
                 winnerPlayer = find_player st6 winnerPlayerId;
                 loserPlayer = find_player st6 loserPlayerId;
                 st7 = (case winnerPlayer of
                          None \<Rightarrow> st6
                        | Some p \<Rightarrow> emit (socketId p)
                                     (GameOver r winnings (Some totalReturn) (YouWon winnings)) st6)
             in Inr (case loserPlayer of
                       None \<Rightarrow> st7
                     | Some p \<Rightarrow> emit (socketId p) (GameOver r 0 None BetterLuck) st7)))"

section \<open>The socket handlers\<close>

subsection \<open>make_move\<close>

text \<open>
  The handler up to its first \<^verbatim>\<open>await\<close>: the lookup by \<^verbatim>\<open>matchId\<close>, \<^verbatim>\<open>match.makeMove\<close>, and
  the two \<^verbatim>\<open>move_result\<close> pushes. The second component is the match to settle, when
  \<^verbatim>\<open>match.status === 'finished'\<close>. The socket that sent the event is used for the
  \<^verbatim>\<open>illegal_move\<close> reply only.
\<close>

definition make_move_sync ::
  "'p chess_js \<Rightarrow> int \<Rightarrow> 'p server \<Rightarrow> socket_id \<Rightarrow> move_data \<Rightarrow> 'p server \<times> 'p Match option" where
  "make_move_sync E now st sid d =
     (case matches st (md_matchId d) of
        None \<Rightarrow> (st, None)
      | Some m \<Rightarrow>
          (case makeMove E now m (md_from d) (md_to d) (md_promotion d) of
             Inl r \<Rightarrow> (emit sid (IllegalMove r) st, None)
           | Inr m' \<Rightarrow>
               (let st1 = st\<lparr> matches := (matches st)(md_matchId d \<mapsto> m') \<rparr>;
                    moveResult = MoveResult (fen m') (turn m') (whiteMs (clock m'))
                                   (blackMs (clock m')) (md_from d) (md_to d) (md_promotion d);
                    st2 = emit_to_player (players_white m') moveResult st1;
                    st3 = emit_to_player (players_black m') moveResult st2
                in (st3, if status m' = Finished then Some m' else None))))"

text \<open>
  The whole handler: \<^verbatim>\<open>await handleGameOver(match); matches.delete(matchId)\<close>. An exception
  of \<^verbatim>\<open>handleGameOver\<close> leaves the handler before the delete.
\<close>

definition make_move :: "'p chess_js \<Rightarrow> int \<Rightarrow> 'p server \<Rightarrow> socket_id \<Rightarrow> move_data \<Rightarrow> 'p server" where
  "make_move E now st sid d =
     (case make_move_sync E now st sid d of
        (st1, None) \<Rightarrow> st1
      | (st1, Some m') \<Rightarrow>
          (case handleGameOver st1 m' of
             Inl e \<Rightarrow> st1
           | Inr st2 \<Rightarrow> st2\<lparr> matches := (matches st2)(md_matchId d := None) \<rparr>))"

subsection \<open>register_player and disconnect\<close>

text \<open>
  \<^verbatim>\<open>indexOf\<close> then \<^verbatim>\<open>splice(idx, 1)\<close> in every queue removes the first occurrence, which is
  \<open>remove1\<close>.
\<close>

definition remove_from_queues :: "uuid \<Rightarrow> (string \<times> uuid list) list \<Rightarrow> (string \<times> uuid list) list" where
  "remove_from_queues pid qs = map (\<lambda>(mode, q). (mode, remove1 pid q)) qs"

definition evict :: "socket_id \<Rightarrow> Player \<Rightarrow> 'p server \<Rightarrow> 'p server" where
  "evict sId p st =
     emit sId ForceDisconnect
       (st\<lparr> queues := remove_from_queues (playerId p) (queues st),
            players := AList.delete sId (players st) \<rparr>)"

definition register_player :: "'p server \<Rightarrow> socket_id \<Rightarrow> js_user \<Rightarrow> 'p server" where
  "register_player st sid userId =
     (let st1 = foldl (\<lambda>s (sId, p). if strict_eq (dbId p) userId \<and> sId \<noteq> sid
                                      then evict sId p s else s) st (players st)
      in case uuidv4 st1 of
           (pid, st2) \<Rightarrow>
             st2\<lparr> players := AList.update sid (new_Player pid sid userId None) (players st2) \<rparr>)"

definition disconnect :: "'p server \<Rightarrow> socket_id \<Rightarrow> 'p server" where
  "disconnect st sid =
     (case map_of (players st) sid of
        None \<Rightarrow> st
      | Some player \<Rightarrow>
          st\<lparr> queues := remove_from_queues (playerId player) (queues st),
              players := AList.delete sid (players st) \<rparr>)"

subsection \<open>matchPlayers\<close>

text \<open>
  The recursion of \<^verbatim>\<open>matchPlayers\<close> on the queue of the mode: a first entry that resolves to
  no player is shifted out, a second one is spliced out, and so is a second entry with the
  same non-null \<^verbatim>\<open>dbId\<close> as the first. The result is the queue that is left and the pair,
  if there is one; with a pair, both entries have left the queue.
\<close>

fun select_pair :: "(uuid \<Rightarrow> Player option) \<Rightarrow> uuid list \<Rightarrow> uuid list \<times> (Player \<times> Player) option" where
  "select_pair look (a # b # rest) =
     (case look a of
        None \<Rightarrow> select_pair look (b # rest)
      | Some p1 \<Rightarrow>
          (case look b of
             None \<Rightarrow> select_pair look (a # rest)
           | Some p2 \<Rightarrow>
               if dbId p1 \<noteq> None \<and> dbId p2 \<noteq> None \<and> dbId p1 = dbId p2
               then select_pair look (a # rest)
               else (rest, Some (p1, p2))))"
| "select_pair look q = (q, None)"

text \<open>\<^verbatim>\<open>p.color = c\<close> on the object that \<^verbatim>\<open>find\<close> returned: the first player with that id.\<close>

fun set_color :: "uuid \<Rightarrow> color \<Rightarrow> (socket_id \<times> Player) list \<Rightarrow> (socket_id \<times> Player) list" where
  "set_color pid c [] = []"
| "set_color pid c ((s, p) # ps) =
     (if playerId p = pid then (s, p\<lparr> color := Some c \<rparr>) # ps else (s, p) # set_color pid c ps)"

definition entry_fee_tx :: "Player \<Rightarrow> rat \<Rightarrow> string \<Rightarrow> 'p server \<Rightarrow> 'p server" where
  "entry_fee_tx p fee mode st =
     (case dbId p of
        None \<Rightarrow> st
      | Some u \<Rightarrow> insert_transaction (Some u) fee ''entry_fee'' (EntryFeeOf mode) st)"

text \<open>The body of \<^verbatim>\<open>matchPlayers\<close> after the two \<^verbatim>\<open>q.shift()\<close>.\<close>

definition start_match ::
  "'p chess_js \<Rightarrow> int \<Rightarrow> bool \<Rightarrow> string \<Rightarrow> rat \<Rightarrow> Player \<Rightarrow> Player \<Rightarrow> 'p server \<Rightarrow> 'p server" where
  "start_match E now isP1White mode fee p1 p2 st =
     (let st1 = on_db (add_balance (dbId p1) (- fee)) st;
          st2 = on_db (add_balance (dbId p2) (- fee)) st1;
          st3 = entry_fee_tx p1 fee mode st2;
          st4 = entry_fee_tx p2 fee mode st3
      in case uuidv4 st4 of
           (mid, st5) \<Rightarrow>
             (let wDb = (if isP1White then dbId p1 else dbId p2);
                  bDb = (if isP1White then dbId p2 else dbId p1);
                  m = new_Match E now mid
                        (if isP1White then playerId p1 else playerId p2)
                        (if isP1White then playerId p2 else playerId p1) wDb bDb mode fee;
                  st6 = on_db (\<lambda>s. s\<lparr> match_rows := (match_rows s)(mid \<mapsto>
                           \<lparr> white_player_id = wDb, black_player_id = bDb, entry_fee = fee,
                             stake_amount = fee, winner_id = None, result_reason = None,
                             ended = False \<rparr>) \<rparr>) st5;
                  st7 = st6\<lparr> matches := (matches st6)(mid \<mapsto> m) \<rparr>;
                  c1 = (if isP1White then White else Black);
                  c2 = (if isP1White then Black else White);
                  st8 = st7\<lparr> players := set_color (playerId p2) c2
                                          (set_color (playerId p1) c1 (players st7)) \<rparr>;
                  st9 = emit (socketId p1) (MatchFound mid c1 (fen m) (clock m) (username p2)) st8
              in emit (socketId p2) (MatchFound mid c2 (fen m) (clock m) (username p1)) st9))"

text \<open>
  \<^verbatim>\<open>matchPlayers(mode, fee)\<close>. The handler \<^verbatim>\<open>join_queue\<close> creates \<^verbatim>\<open>queues[mode]\<close> before it
  calls, so the first case is not reached from there.
\<close>

definition matchPlayers ::
  "'p chess_js \<Rightarrow> int \<Rightarrow> bool \<Rightarrow> 'p server \<Rightarrow> string \<Rightarrow> rat \<Rightarrow> 'p server" where
  "matchPlayers E now isP1White st mode fee =
     (case map_of (queues st) mode of
        None \<Rightarrow> st
      | Some q \<Rightarrow>
          (case select_pair (find_player st) q of
             (q', None) \<Rightarrow> st\<lparr> queues := AList.update mode q' (queues st) \<rparr>
           | (q', Some (p1, p2)) \<Rightarrow>
               start_match E now isP1White mode fee p1 p2
                 (st\<lparr> queues := AList.update mode q' (queues st) \<rparr>)))"

subsection \<open>join_queue\<close>

definition auto_register :: "'p server \<Rightarrow> socket_id \<Rightarrow> join_data \<Rightarrow> 'p server" where
  "auto_register st sid d =
     (case map_of (players st) sid of
        Some p \<Rightarrow> st
      | None \<Rightarrow>
          (case uuidv4 st of
             (pid, st1) \<Rightarrow>
               st1\<lparr> players := AList.update sid
                                  (new_Player pid sid (jd_userId d) (jd_username d))
                                  (players st1) \<rparr>))"

text \<open>
  The wallet check: \<open>Some balance\<close> when the player has a \<^verbatim>\<open>dbId\<close>, the account has a row
  and \<^verbatim>\<open>balance < fee\<close>.
\<close>

definition insufficient_balance :: "store \<Rightarrow> Player \<Rightarrow> rat \<Rightarrow> rat option" where
  "insufficient_balance s player fee =
     (case dbId player of
        None \<Rightarrow> None
      | Some u \<Rightarrow>
          (case users s u of
             None \<Rightarrow> None
           | Some row \<Rightarrow> if wallet_balance row < fee then Some (wallet_balance row) else None))"

definition enqueue :: "string \<Rightarrow> uuid \<Rightarrow> (string \<times> uuid list) list \<Rightarrow> (string \<times> uuid list) list" where
  "enqueue mode pid qs =
     (let qs1 = remove_from_queues pid qs;
          qs2 = (if map_of qs1 mode = None then qs1 @ [(mode, [])] else qs1)
      in AList.map_entry mode (\<lambda>q. q @ [pid]) qs2)"

definition join_queue ::
  "'p chess_js \<Rightarrow> int \<Rightarrow> bool \<Rightarrow> 'p server \<Rightarrow> socket_id \<Rightarrow> join_data \<Rightarrow> 'p server" where
  "join_queue E now isP1White st sid d =
     (let st1 = auto_register st sid d in
      case map_of (players st1) sid of
        None \<Rightarrow> st1
      | Some player \<Rightarrow>
          (let mode = mode_of d; fee = fee_of d in
           case insufficient_balance (db st1) player fee of
             Some balance \<Rightarrow> emit sid (ErrorMessage fee balance) st1
           | None \<Rightarrow>
               (let st2 = st1\<lparr> queues := enqueue mode (playerId player) (queues st1) \<rparr>;
                    st3 = st2\<lparr> players := AList.map_entry sid
                              (\<lambda>p. p\<lparr> p_gameMode := Some mode, p_entryFee := Some fee \<rparr>)
                              (players st2) \<rparr>
                in if (case map_of (queues st3) mode of None \<Rightarrow> False | Some q \<Rightarrow> 2 \<le> length q)
                   then matchPlayers E now isP1White st3 mode fee
                   else st3)))"

subsection \<open>The events of a connection\<close>

text \<open>
  \<^verbatim>\<open>io.on('connection')\<close> installs four handlers, and nothing else in \<^verbatim>\<open>server.js\<close> writes
  \<^verbatim>\<open>matches\<close>, \<^verbatim>\<open>players\<close> or \<^verbatim>\<open>queues\<close>: the file sets no timer. An event carries what its
  handler reads from the environment.
\<close>

datatype event =
    RegisterPlayer socket_id js_user
  | JoinQueue socket_id join_data bool int
  | MakeMove socket_id move_data int
  | Disconnect socket_id

fun step :: "'p chess_js \<Rightarrow> 'p server \<Rightarrow> event \<Rightarrow> 'p server" where
  "step E st (RegisterPlayer sid userId) = register_player st sid userId"
| "step E st (JoinQueue sid d isP1White now) = join_queue E now isP1White st sid d"
| "step E st (MakeMove sid d now) = make_move E now st sid d"
| "step E st (Disconnect sid) = disconnect st sid"

definition run :: "'p chess_js \<Rightarrow> store \<Rightarrow> event list \<Rightarrow> 'p server" where
  "run E s evs = foldl (step E) (init_server s) evs"

section \<open>A stand-in oracle for evaluation\<close>

text \<open>
  The theorems below hold for every oracle \<open>E\<close>. To evaluate the handlers at a concrete
  input an oracle is needed, and this one is as small as the interface allows: its
  position is the list of moves played, latest first; a move is accepted when its two
  squares differ and the game is not over; the sides alternate; a move to the square
  \<^verbatim>\<open>mate\<close> gives checkmate and one to \<^verbatim>\<open>draw\<close> a draw. It stands for \<^verbatim>\<open>chess.js\<close> at the
  inputs of the witnesses only.
\<close>

definition sample_over :: "(string \<times> string) list \<Rightarrow> bool" where
  "sample_over p = (case p of [] \<Rightarrow> False | (f, t) # _ \<Rightarrow> t = ''mate'' \<or> t = ''draw'')"

definition sample_chess :: "(string \<times> string) list chess_js" where
  "sample_chess =
     \<lparr> chess_new = [],
       chess_move = (\<lambda>p f t promo. if f = t \<or> sample_over p then None else Some ((f, t) # p)),
       chess_fen = (\<lambda>p. concat (map (\<lambda>(f, t). f @ t) (rev p))),
       chess_turn = (\<lambda>p. if even (length p) then White else Black),
       chess_isCheckmate = (\<lambda>p. case p of [] \<Rightarrow> False | (f, t) # _ \<Rightarrow> t = ''mate''),
       chess_isDraw = (\<lambda>p. case p of [] \<Rightarrow> False | (f, t) # _ \<Rightarrow> t = ''draw'') \<rparr>"

text \<open>The remaining budget of a side.\<close>

definition budget :: "color \<Rightarrow> clock \<Rightarrow> int" where
  "budget side c = (if side = White then whiteMs c else blackMs c)"

section \<open>Concrete inputs\<close>

text \<open>
  A store with two accounts, and the states and payloads at which the theorems are
  evaluated: two anonymous players who joined the default queue at time \<open>0\<close> and were
  paired (players \<open>0\<close> and \<open>1\<close> on sockets \<open>1\<close> and \<open>2\<close>, match \<open>2\<close>, stake \<open>10\<close>).
\<close>

definition store0 :: store where
  "store0 =
     \<lparr> users = [10 \<mapsto> \<lparr> wallet_balance = 5, rating = 1200, wins = 0, losses = 0, draws = 0 \<rparr>,
                11 \<mapsto> \<lparr> wallet_balance = 100, rating = 5, wins = 0, losses = 0, draws = 0 \<rparr>],
       transactions = [], company_earnings = [], match_rows = Map.empty \<rparr>"

definition guest :: join_data where
  "guest = \<lparr> jd_userId = Undefined, jd_gameMode = None, jd_entryFee = Some 10, jd_username = None \<rparr>"

definition two_guests :: "(string \<times> string) list server" where
  "two_guests = run sample_chess store0 [JoinQueue 1 guest True 0, JoinQueue 2 guest True 0]"

definition guest_match :: "(string \<times> string) list Match" where
  "guest_match = new_Match sample_chess 0 2 0 1 None None ''BULLET'' 10"

definition first_move :: move_data where
  "first_move = \<lparr> md_matchId = 2, md_from = ''e2'', md_to = ''e4'', md_promotion = None \<rparr>"

definition drawing_move :: move_data where
  "drawing_move = \<lparr> md_matchId = 2, md_from = ''e2'', md_to = ''draw'', md_promotion = None \<rparr>"

text \<open>Every entry of every queue, queue after queue.\<close>

definition queued :: "(string \<times> uuid list) list \<Rightarrow> uuid list" where
  "queued qs = concat (map snd qs)"


definition blitz_guest :: join_data where
  "blitz_guest = \<lparr> jd_userId = Undefined, jd_gameMode = Some ''BLITZ'', jd_entryFee = Some 10,
                    jd_username = None \<rparr>"

definition one_waiting :: "(string \<times> string) list server" where
  "one_waiting = run sample_chess store0 [JoinQueue 1 guest True 0]"

definition account10 :: join_data where
  "account10 = \<lparr> jd_userId = UserId 10, jd_gameMode = None, jd_entryFee = Some 10, jd_username = None \<rparr>"

definition registered10 :: "(string \<times> string) list server" where
  "registered10 = run sample_chess store0 [RegisterPlayer 1 (UserId 10)]"

text \<open>
  Account \<open>10\<close> (balance \<open>5\<close>) waits in the default queue with a stake of \<open>5\<close>; account \<open>11\<close>
  (balance \<open>100\<close>) then joins with a stake of \<open>100\<close>. \<open>pre_pairing\<close> is the state in which
  the second \<^verbatim>\<open>join_queue\<close> calls \<^verbatim>\<open>matchPlayers\<close>.
\<close>

definition low_stake :: join_data where
  "low_stake = \<lparr> jd_userId = UserId 10, jd_gameMode = None, jd_entryFee = Some 5, jd_username = None \<rparr>"


definition low_waiting :: "(string \<times> string) list server" where
  "low_waiting = run sample_chess store0
     [RegisterPlayer 1 (UserId 10), RegisterPlayer 2 (UserId 11), JoinQueue 1 low_stake True 0]"


text \<open>The loop of \<^verbatim>\<open>register_player\<close> over the entries of \<^verbatim>\<open>players\<close>.\<close>

abbreviation evict_loop :: "socket_id \<Rightarrow> js_user \<Rightarrow> 'p server \<Rightarrow> (socket_id \<times> Player) list \<Rightarrow> 'p server" where
  "evict_loop sid userId \<equiv>
     foldl (\<lambda>s (sId, p). if strict_eq (dbId p) userId \<and> sId \<noteq> sid then evict sId p s else s)"

text \<open>
  A first move that arrives at time \<open>70000\<close>, after the whole budget of a bullet game:
  \<open>awaiting_settlement\<close> is the state in which the handler reaches
  \<^verbatim>\<open>await handleGameOver(match)\<close>, with the finished match still in \<^verbatim>\<open>matches\<close>, and
  \<open>mated_after_timeout\<close> is that match after a further move at time \<open>70001\<close>. Further, the
  events of a third connection that never moves.
\<close>

definition mating_move :: move_data where
  "mating_move = \<lparr> md_matchId = 2, md_from = ''g8'', md_to = ''mate'', md_promotion = None \<rparr>"

definition timed_out_match :: "(string \<times> string) list Match" where
  "timed_out_match =
     guest_match\<lparr> chess := [(''e2'', ''e4'')], fen := ''e2e4'', turn := Black,
                    clock := \<lparr> whiteMs = 60000, blackMs = 0, lastMoveTs = 70000 \<rparr>,
                    status := Finished,
                    result := Some \<lparr> winner = WWhite, reason = Timeout \<rparr> \<rparr>"

definition mated_after_timeout :: "(string \<times> string) list Match" where
  "mated_after_timeout =
     timed_out_match\<lparr> chess := [(''g8'', ''mate''), (''e2'', ''e4'')], fen := ''e2e4g8mate'',
                        turn := White,
                        clock := \<lparr> whiteMs = 59999, blackMs = 0, lastMoveTs = 70001 \<rparr>,
                        result := Some \<lparr> winner = WBlack, reason = Checkmate \<rparr> \<rparr>"

definition awaiting_settlement :: "(string \<times> string) list server" where
  "awaiting_settlement = fst (make_move_sync sample_chess 70000 two_guests 1 first_move)"

definition third_party_events :: "event list" where
  "third_party_events =
     [RegisterPlayer 3 Undefined, JoinQueue 3 blitz_guest True 1000000, Disconnect 3]"

section \<open>Properties\<close>

subsection \<open>Unfolding and frame lemmas\<close>

lemmas handler_defs = run_def init_server_def join_queue_def auto_register_def uuidv4_def
  new_Player_def mode_of_def fee_of_def insufficient_balance_def enqueue_def
  remove_from_queues_def Let_def matchPlayers_def find_player_def start_match_def on_db_def
  add_balance_def update_user_def entry_fee_tx_def new_Match_def emit_def timeMs_def
  insert_transaction_def register_player_def evict_def disconnect_def
  make_move_def make_move_sync_def makeMove_def updateClock_def charge_def emit_to_player_def
  handleGameOver_def refund_side_def update_match_row_def insert_company_earning_def

lemmas sample_defs = sample_chess_def sample_over_def store0_def guest_def

lemma two_guests_eq:
  "two_guests =
     \<lparr> matches = [2 \<mapsto> guest_match],
       players = [(1, (new_Player 0 1 Undefined None)\<lparr> color := Some White, p_gameMode := Some ''BULLET'', p_entryFee := Some 10 \<rparr>),
                  (2, (new_Player 1 2 Undefined None)\<lparr> color := Some Black, p_gameMode := Some ''BULLET'', p_entryFee := Some 10 \<rparr>)],
       queues = [(''BULLET'', []), (''BLITZ'', []), (''RAPID'', []), (''CLASSICAL'', []), (''TOURNAMENT'', [])],
       db = store0\<lparr> match_rows := [2 \<mapsto> \<lparr> white_player_id = None, black_player_id = None, entry_fee = 10,
                             stake_amount = 10, winner_id = None, result_reason = None, ended = False \<rparr>] \<rparr>,
       outbox = [(1, MatchFound 2 White [] (clock guest_match) ''Guest''),
                 (2, MatchFound 2 Black [] (clock guest_match) ''Guest'')],
       next_uuid = 3 \<rparr>"
  by (simp add: two_guests_def guest_match_def handler_defs sample_defs eval_nat_numeral)


lemma users_update_user_same:
  "users s u = Some row \<Longrightarrow> users (update_user (Some u) f s) u = Some (f row)"
  by (simp add: update_user_def)

lemma users_update_user:
  "users (update_user uid f s) u =
     (if uid = Some u then map_option f (users s u) else users s u)"
  by (auto simp: update_user_def split: option.splits)

lemma transactions_update_user [simp]: "transactions (update_user uid f s) = transactions s"
  by (simp add: update_user_def split: option.splits)

lemma company_earnings_update_user [simp]: "company_earnings (update_user uid f s) = company_earnings s"
  by (simp add: update_user_def split: option.splits)

lemma users_update_match_row [simp]: "users (update_match_row mid f s) = users s"
  by (simp add: update_match_row_def split: option.splits)

lemma transactions_update_match_row [simp]: "transactions (update_match_row mid f s) = transactions s"
  by (simp add: update_match_row_def split: option.splits)

lemma company_earnings_update_match_row [simp]:
  "company_earnings (update_match_row mid f s) = company_earnings s"
  by (simp add: update_match_row_def split: option.splits)

lemma db_emit [simp]: "db (emit sid ev st) = db st"
  by (simp add: emit_def)

lemma next_uuid_emit [simp]: "next_uuid (emit sid ev st) = next_uuid st"
  by (simp add: emit_def)

lemma db_on_db [simp]: "db (on_db f st) = f (db st)"
  by (simp add: on_db_def)

lemma next_uuid_on_db [simp]: "next_uuid (on_db f st) = next_uuid st"
  by (simp add: on_db_def)

lemma outbox_on_db [simp]: "outbox (on_db f st) = outbox st"
  by (simp add: on_db_def)

lemma outbox_insert_transaction [simp]: "outbox (insert_transaction uid a ty d st) = outbox st"
  by (simp add: insert_transaction_def uuidv4_def)

lemma db_insert_transaction:
  "db (insert_transaction uid a ty d st) =
     (db st)\<lparr> transactions := transactions (db st) @
        [\<lparr> tx_id = next_uuid st, tx_user_id = uid, tx_amount = a, tx_type = ty, tx_description = d \<rparr>] \<rparr>"
  by (simp add: insert_transaction_def uuidv4_def)

lemma next_uuid_insert_transaction [simp]:
  "next_uuid (insert_transaction uid a ty d st) = Suc (next_uuid st)"
  by (simp add: insert_transaction_def uuidv4_def)

lemma db_insert_company_earning:
  "db (insert_company_earning mid a d st) =
     (db st)\<lparr> company_earnings := company_earnings (db st) @
        [\<lparr> ce_id = next_uuid st, ce_match_id = mid, ce_amount = a, ce_description = d \<rparr>] \<rparr>"
  by (simp add: insert_company_earning_def uuidv4_def)

lemma outbox_refund_side [simp]: "outbox (refund_side uid fee mid st) = outbox st"
  by (simp add: refund_side_def split: option.splits)

lemma matches_emit [simp]: "matches (emit sid ev st) = matches st"
  by (simp add: emit_def)

lemma matches_emit_to_player [simp]: "matches (emit_to_player pid ev st) = matches st"
  by (simp add: emit_to_player_def split: option.splits)


subsection \<open>The clock\<close>

lemma makeMove_clock:
  assumes "chess_move E (chess m) from to promo = Some p"
      and "makeMove E now m from to promo = Inr m'"
  shows "clock m' = (charge (chess_turn E p) (now - lastMoveTs (clock m)) (clock m))\<lparr>lastMoveTs := now\<rparr>"
  using assms by (auto simp: makeMove_def updateClock_def Let_def split: if_splits)

text \<open>
  C3. The claim: on an applied move the elapsed time is taken, clamped at zero, from the
  budget of the side that was to move before the event, i.e. the side that just moved, and
  never from the other side. The code: \<^verbatim>\<open>makeMove\<close> assigns \<^verbatim>\<open>this.turn\<close> from the oracle
  before it calls \<^verbatim>\<open>updateClock\<close>, so where the move passes the turn to the other side, the
  budget of the side that moved is left as it was and the elapsed time is taken from the
  side that is to move next.
\<close>

theorem makeMove_charges_the_side_to_move_next:
  assumes "chess_move E (chess m) from to promo = Some p"
      and "makeMove E now m from to promo = Inr m'"
      and "chess_turn E p \<noteq> turn m"
  shows "budget (turn m) (clock m') = budget (turn m) (clock m) \<and>
         budget (chess_turn E p) (clock m') =
           max 0 (budget (chess_turn E p) (clock m) - (now - lastMoveTs (clock m)))"
  using assms(3) makeMove_clock[OF assms(1,2)]
  by (cases "turn m"; cases "chess_turn E p") (auto simp: budget_def charge_def)

lemma first_move_applied:
  "makeMove sample_chess 5000 guest_match ''e2'' ''e4'' None =
     Inr (guest_match\<lparr> chess := [(''e2'', ''e4'')], fen := ''e2e4'', turn := Black,
                       clock := \<lparr> whiteMs = 60000, blackMs = 55000, lastMoveTs = 5000 \<rparr> \<rparr>)"
  by (simp add: guest_match_def handler_defs sample_defs)

theorem makeMove_charges_the_side_to_move_next_witness:
  "turn guest_match = White \<and>
   (\<exists>m'. makeMove sample_chess 5000 guest_match ''e2'' ''e4'' None = Inr m' \<and>
         whiteMs (clock guest_match) = 60000 \<and> whiteMs (clock m') = 60000 \<and>
         blackMs (clock guest_match) = 60000 \<and> blackMs (clock m') = 55000)"
proof -
  have mv: "chess_move sample_chess (chess guest_match) ''e2'' ''e4'' None = Some [(''e2'', ''e4'')]"
    by (simp add: guest_match_def new_Match_def sample_defs)
  have t: "chess_turn sample_chess [(''e2'', ''e4'')] \<noteq> turn guest_match"
    by (simp add: guest_match_def new_Match_def sample_defs)
  show ?thesis
    using makeMove_charges_the_side_to_move_next [OF mv first_move_applied t]
    by (simp add: budget_def first_move_applied) (simp add: guest_match_def new_Match_def timeMs_def)
qed


subsection \<open>make_move\<close>

text \<open>
  C1. The claim: a move sent by a participant who is not assigned to the side to move is
  rejected and leaves the session as it was. The code: the handler looks the match up and
  calls \<^verbatim>\<open>makeMove\<close>; it never reads who sent the event. Whenever the oracle accepts the
  move, it is applied, and the resulting server state is the same for every sender.
\<close>

theorem make_move_ignores_the_sender:
  assumes "matches st (md_matchId d) = Some m"
      and "makeMove E now m (md_from d) (md_to d) (md_promotion d) = Inr m'"
  shows "matches (fst (make_move_sync E now st sid d)) (md_matchId d) = Some m' \<and>
         outbox (fst (make_move_sync E now st sid d)) = outbox (fst (make_move_sync E now st sid' d)) \<and>
         make_move E now st sid d = make_move E now st sid' d"
  using assms by (simp add: make_move_def make_move_sync_def Let_def)

theorem make_move_ignores_the_sender_witness:
  "map_option turn (matches two_guests 2) = Some White \<and>
   map_option players_black (matches two_guests 2) = map_option playerId (map_of (players two_guests) 2) \<and>
   map_of (players two_guests) 99 = None \<and>
   map_option turn (matches (fst (make_move_sync sample_chess 5000 two_guests 2 first_move)) 2) = Some Black \<and>
   map_option fen (matches (fst (make_move_sync sample_chess 5000 two_guests 2 first_move)) 2) = Some ''e2e4'' \<and>
   make_move sample_chess 5000 two_guests 2 first_move = make_move sample_chess 5000 two_guests 1 first_move \<and>
   make_move sample_chess 5000 two_guests 99 first_move = make_move sample_chess 5000 two_guests 1 first_move"
proof -
  have m: "matches two_guests (md_matchId first_move) = Some guest_match"
    by (simp add: two_guests_eq first_move_def)
  have mv: "makeMove sample_chess 5000 guest_match (md_from first_move) (md_to first_move)
              (md_promotion first_move) =
            Inr (guest_match\<lparr> chess := [(''e2'', ''e4'')], fen := ''e2e4'', turn := Black,
                       clock := \<lparr> whiteMs = 60000, blackMs = 55000, lastMoveTs = 5000 \<rparr> \<rparr>)"
    by (simp add: first_move_def first_move_applied)
  show ?thesis
    using make_move_ignores_the_sender [OF m mv, of 2 1] make_move_ignores_the_sender [OF m mv, of 99 1]
    by (simp add: first_move_def two_guests_eq guest_match_def new_Match_def new_Player_def)
qed


subsection \<open>Settlement\<close>

text \<open>
  C8. The claim: when a session ends, by a draw or by a decisive outcome alike, a
  \<^verbatim>\<open>game_over\<close> notification is pushed to each side that is still connected. The code: for a
  result whose winner is \<^verbatim>\<open>'draw'\<close>, \<^verbatim>\<open>handleGameOver\<close> returns before the pushes, and
  nothing is emitted.
\<close>

theorem handleGameOver_draw_pushes_nothing:
  assumes "result m = Some r" and "winner r = WDraw"
  shows "\<exists>st'. handleGameOver st m = Inr st' \<and> outbox st' = outbox st"
  using assms by (simp add: handleGameOver_def Let_def refund_side_def on_db_def insert_transaction_def uuidv4_def split: option.splits)

lemma drawing_move_applied:
  "makeMove sample_chess 5000 guest_match ''e2'' ''draw'' None =
     Inr (guest_match\<lparr> chess := [(''e2'', ''draw'')], fen := ''e2draw'', turn := Black,
                       clock := \<lparr> whiteMs = 60000, blackMs = 55000, lastMoveTs = 5000 \<rparr>,
                       result := Some \<lparr> winner = WDraw, reason = RDraw \<rparr>, status := Finished \<rparr>)"
  by (simp add: guest_match_def handler_defs sample_defs)

theorem handleGameOver_draw_pushes_nothing_witness:
  "find_player two_guests (players_white guest_match) \<noteq> None \<and>
   find_player two_guests (players_black guest_match) \<noteq> None \<and>
   (\<exists>m' st'. makeMove sample_chess 5000 guest_match ''e2'' ''draw'' None = Inr m' \<and>
      result m' = Some \<lparr> winner = WDraw, reason = RDraw \<rparr> \<and>
      handleGameOver two_guests m' = Inr st' \<and> outbox st' = outbox two_guests) \<and>
   outbox (make_move sample_chess 5000 two_guests 1 drawing_move) =
     outbox two_guests @
       [(1, MoveResult ''e2draw'' Black 60000 55000 ''e2'' ''draw'' None),
        (2, MoveResult ''e2draw'' Black 60000 55000 ''e2'' ''draw'' None)] \<and>
   matches (make_move sample_chess 5000 two_guests 1 drawing_move) 2 = None"
proof -
  let ?m = "guest_match\<lparr> chess := [(''e2'', ''draw'')], fen := ''e2draw'', turn := Black,
                       clock := \<lparr> whiteMs = 60000, blackMs = 55000, lastMoveTs = 5000 \<rparr>,
                       result := Some \<lparr> winner = WDraw, reason = RDraw \<rparr>, status := Finished \<rparr>"
  have r: "result ?m = Some \<lparr> winner = WDraw, reason = RDraw \<rparr>" by simp
  have "\<exists>st'. handleGameOver two_guests ?m = Inr st' \<and> outbox st' = outbox two_guests"
    using handleGameOver_draw_pushes_nothing [OF r, of two_guests] by simp
  moreover have "outbox (make_move sample_chess 5000 two_guests 1 drawing_move) =
     outbox two_guests @
       [(1, MoveResult ''e2draw'' Black 60000 55000 ''e2'' ''draw'' None),
        (2, MoveResult ''e2draw'' Black 60000 55000 ''e2'' ''draw'' None)] \<and>
   matches (make_move sample_chess 5000 two_guests 1 drawing_move) 2 = None"
    by (simp add: two_guests_eq drawing_move_def guest_match_def handler_defs sample_defs)
  moreover have "find_player two_guests (players_white guest_match) \<noteq> None \<and>
   find_player two_guests (players_black guest_match) \<noteq> None"
    by (simp add: two_guests_eq guest_match_def find_player_def new_Match_def new_Player_def)
  ultimately show ?thesis
    using drawing_move_applied by simp
qed


subsection \<open>The queues\<close>

lemma queued_Nil [simp]: "queued [] = []"
  by (simp add: queued_def)

lemma queued_Cons [simp]: "queued ((m, q) # qs) = q @ queued qs"
  by (simp add: queued_def)

lemma queued_append [simp]: "queued (qs @ rs) = queued qs @ queued rs"
  by (simp add: queued_def)

lemma mem_queued: "(m, q) \<in> set qs \<Longrightarrow> x \<in> set q \<Longrightarrow> x \<in> set (queued qs)"
  by (induction qs) auto

lemma mem_queued_remove:
  "x \<in> set (queued (remove_from_queues pid qs)) \<Longrightarrow> x \<in> set (queued qs)"
proof (induction qs)
  case Nil
  then show ?case by (simp add: remove_from_queues_def)
next
  case (Cons a qs)
  obtain m q where a: "a = (m, q)" by (cases a)
  have "remove_from_queues pid (a # qs) = (m, remove1 pid q) # remove_from_queues pid qs"
    by (simp add: a remove_from_queues_def)
  with Cons a show ?case
    using set_remove1_subset [of pid q] by auto
qed

lemma set_queued_remove: "set (queued (remove_from_queues pid qs)) \<subseteq> set (queued qs)"
  using mem_queued_remove by blast

lemma distinct_queued_remove:
  "distinct (queued qs) \<Longrightarrow> distinct (queued (remove_from_queues pid qs))"
proof (induction qs)
  case Nil
  then show ?case by (simp add: remove_from_queues_def)
next
  case (Cons a qs)
  obtain m q where a: "a = (m, q)" by (cases a)
  have sub: "set (queued (remove_from_queues pid qs)) \<subseteq> set (queued qs)"
    by (rule set_queued_remove)
  have "remove_from_queues pid (a # qs) = (m, remove1 pid q) # remove_from_queues pid qs"
    by (simp add: a remove_from_queues_def)
  with Cons a sub show ?case
    by (auto dest: notin_set_remove1)
qed

lemma notin_queued_remove:
  "distinct (queued qs) \<Longrightarrow> pid \<notin> set (queued (remove_from_queues pid qs))"
proof (induction qs)
  case Nil
  then show ?case by (simp add: remove_from_queues_def)
next
  case (Cons a qs)
  obtain m q where a: "a = (m, q)" by (cases a)
  have "remove_from_queues pid (a # qs) = (m, remove1 pid q) # remove_from_queues pid qs"
    by (simp add: a remove_from_queues_def)
  with Cons a show ?case by auto
qed

lemma queued_map_entry:
  "set (queued (AList.map_entry mode (\<lambda>q. q @ [pid]) qs)) \<subseteq> insert pid (set (queued qs))"
  by (induction qs) auto

lemma distinct_queued_map_entry:
  "distinct (queued qs) \<Longrightarrow> pid \<notin> set (queued qs) \<Longrightarrow>
   distinct (queued (AList.map_entry mode (\<lambda>q. q @ [pid]) qs))"
proof (induction qs)
  case Nil
  then show ?case by simp
next
  case (Cons a qs)
  obtain m q where a: "a = (m, q)" by (cases a)
  show ?case
  proof (cases "m = mode")
    case True
    with Cons a show ?thesis by auto
  next
    case False
    have "set (queued (AList.map_entry mode (\<lambda>q. q @ [pid]) qs)) \<subseteq> insert pid (set (queued qs))"
      by (rule queued_map_entry)
    with False Cons a show ?thesis by auto
  qed
qed

lemma mem_map_entry:
  "map_of qs mode \<noteq> None \<Longrightarrow> pid \<in> set (queued (AList.map_entry mode (\<lambda>q. q @ [pid]) qs))"
  by (induction qs) auto

lemma only_in_mode_map_entry:
  "pid \<notin> set (queued qs) \<Longrightarrow> (m, q) \<in> set (AList.map_entry mode (\<lambda>q. q @ [pid]) qs) \<Longrightarrow>
   pid \<in> set q \<Longrightarrow> m = mode"
  by (induction qs) (auto split: if_splits dest: mem_queued)

lemma distinct_queued_enqueue:
  assumes "distinct (queued qs)"
  shows "distinct (queued (enqueue mode pid qs))"
proof -
  let ?qs1 = "remove_from_queues pid qs"
  let ?qs2 = "if map_of ?qs1 mode = None then ?qs1 @ [(mode, [])] else ?qs1"
  have "distinct (queued ?qs2)" "pid \<notin> set (queued ?qs2)"
    using distinct_queued_remove [OF assms] notin_queued_remove [OF assms] by auto
  then show ?thesis
    unfolding enqueue_def Let_def by (rule distinct_queued_map_entry)
qed

lemma enqueue_membership:
  assumes "distinct (queued qs)"
  shows "pid \<in> set (queued (enqueue mode pid qs))"
    and "(m, q) \<in> set (enqueue mode pid qs) \<Longrightarrow> pid \<in> set q \<Longrightarrow> m = mode"
proof -
  let ?qs1 = "remove_from_queues pid qs"
  let ?qs2 = "if map_of ?qs1 mode = None then ?qs1 @ [(mode, [])] else ?qs1"
  have n: "pid \<notin> set (queued ?qs2)"
    using notin_queued_remove [OF assms] by auto
  have "map_of ?qs2 mode \<noteq> None" by (auto simp: map_add_def)
  then show "pid \<in> set (queued (enqueue mode pid qs))"
    unfolding enqueue_def Let_def by (rule mem_map_entry)
  show "(m, q) \<in> set (enqueue mode pid qs) \<Longrightarrow> pid \<in> set q \<Longrightarrow> m = mode"
    unfolding enqueue_def Let_def using n by (rule only_in_mode_map_entry)
qed

text \<open>The recursion of \<^verbatim>\<open>matchPlayers\<close> only drops entries.\<close>

lemma select_pair_keeps:
  "set (fst (select_pair look q)) \<subseteq> set q \<and> (distinct q \<longrightarrow> distinct (fst (select_pair look q)))"
proof (induction look q rule: select_pair.induct)
  case (1 look a b rest)
  show ?case
  proof (cases "look a")
    case None
    with "1.IH"(1) show ?thesis by auto
  next
    case p1: (Some p1)
    show ?thesis
    proof (cases "look b")
      case None
      with p1 "1.IH"(2) show ?thesis by auto
    next
      case p2: (Some p2)
      show ?thesis
      proof (cases "dbId p1 \<noteq> None \<and> dbId p2 \<noteq> None \<and> dbId p1 = dbId p2")
        case True
        from "1.IH"(3) [OF p1 p2 True] True p1 p2 show ?thesis by auto
      next
        case False
        with p1 p2 show ?thesis by auto
      qed
    qed
  qed
qed simp_all

lemma mem_queued_update:
  "map_of qs mode = Some q \<Longrightarrow> set q' \<subseteq> set q \<Longrightarrow>
   x \<in> set (queued (AList.update mode q' qs)) \<Longrightarrow> x \<in> set (queued qs)"
  by (induction qs) (auto split: if_splits)

lemma distinct_queued_update:
  "distinct (queued qs) \<Longrightarrow> map_of qs mode = Some q \<Longrightarrow> set q' \<subseteq> set q \<Longrightarrow> distinct q' \<Longrightarrow>
   distinct (queued (AList.update mode q' qs))"
proof (induction qs)
  case Nil
  then show ?case by simp
next
  case (Cons a qs)
  obtain m r where a: "a = (m, r)" by (cases a)
  show ?case
  proof (cases "m = mode")
    case True
    with Cons.prems a show ?thesis by auto
  next
    case False
    with Cons.prems a have "\<And>x. x \<in> set (queued (AList.update mode q' qs)) \<Longrightarrow> x \<in> set (queued qs)"
      using mem_queued_update [of qs mode q q'] by simp
    with False Cons a show ?thesis by auto
  qed
qed


lemma queues_emit [simp]: "queues (emit sid ev st) = queues st"
  by (simp add: emit_def)

lemma queues_on_db [simp]: "queues (on_db f st) = queues st"
  by (simp add: on_db_def)

lemma queues_insert_transaction [simp]: "queues (insert_transaction uid a ty d st) = queues st"
  by (simp add: insert_transaction_def uuidv4_def)

lemma queues_insert_company_earning [simp]: "queues (insert_company_earning mid a d st) = queues st"
  by (simp add: insert_company_earning_def uuidv4_def)

lemma queues_emit_to_player [simp]: "queues (emit_to_player pid ev st) = queues st"
  by (simp add: emit_to_player_def split: option.splits)

lemma queues_entry_fee_tx [simp]: "queues (entry_fee_tx p fee mode st) = queues st"
  by (simp add: entry_fee_tx_def split: option.splits)

lemma queues_refund_side [simp]: "queues (refund_side uid fee mid st) = queues st"
  by (simp add: refund_side_def split: option.splits)

lemma queues_start_match [simp]: "queues (start_match E now c mode fee p1 p2 st) = queues st"
  by (simp add: start_match_def Let_def uuidv4_def split: prod.splits)

lemma queues_handleGameOver: "handleGameOver st m = Inr st' \<Longrightarrow> queues st' = queues st"
  by (auto simp: handleGameOver_def Let_def split: option.splits if_splits)

lemma queues_make_move [simp]: "queues (make_move E now st sid d) = queues st"
  by (auto simp: make_move_def make_move_sync_def Let_def split: option.splits sum.splits
      dest: queues_handleGameOver)

lemma queues_auto_register [simp]: "queues (auto_register st sid d) = queues st"
  by (simp add: auto_register_def uuidv4_def split: option.splits)

lemma distinct_entry: "(m, q) \<in> set qs \<Longrightarrow> distinct (queued qs) \<Longrightarrow> distinct q"
  by (induction qs) auto

lemma distinct_queued_matchPlayers:
  assumes "distinct (queued (queues st))"
  shows "distinct (queued (queues (matchPlayers E now c st mode fee)))"
proof (cases "map_of (queues st) mode")
  case None
  with assms show ?thesis by (simp add: matchPlayers_def)
next
  case (Some q)
  obtain q' r where sp: "select_pair (find_player st) q = (q', r)"
    by (cases "select_pair (find_player st) q")
  from assms Some have "distinct q"
    by (auto dest: map_of_SomeD distinct_entry)
  with select_pair_keeps [of "find_player st" q] sp have "set q' \<subseteq> set q" "distinct q'"
    by auto
  with assms Some have "distinct (queued (AList.update mode q' (queues st)))"
    by (simp add: distinct_queued_update)
  with Some sp show ?thesis
    by (cases r) (auto simp: matchPlayers_def)
qed

lemma distinct_queued_join_queue:
  assumes "distinct (queued (queues st))"
  shows "distinct (queued (queues (join_queue E now c st sid d)))"
  using assms
  by (auto simp: join_queue_def Let_def distinct_queued_enqueue
      intro!: distinct_queued_matchPlayers split: option.splits)

lemma distinct_queued_evict:
  "distinct (queued (queues st)) \<Longrightarrow> distinct (queued (queues (evict sId p st)))"
  by (simp add: evict_def distinct_queued_remove)

lemma distinct_queued_evict_loop:
  "distinct (queued (queues st)) \<Longrightarrow>
   distinct (queued (queues (foldl (\<lambda>s (sId, p). if strict_eq (dbId p) userId \<and> sId \<noteq> sid
                                      then evict sId p s else s) st ps)))"
  by (induction ps arbitrary: st) (auto simp: distinct_queued_evict)

lemma distinct_queued_register_player:
  "distinct (queued (queues st)) \<Longrightarrow> distinct (queued (queues (register_player st sid userId)))"
  using distinct_queued_evict_loop [of st userId sid "players st"]
  by (simp add: register_player_def Let_def uuidv4_def)

lemma distinct_queued_disconnect:
  "distinct (queued (queues st)) \<Longrightarrow> distinct (queued (queues (disconnect st sid)))"
  by (simp add: disconnect_def distinct_queued_remove split: option.splits)

lemma distinct_queued_step:
  "distinct (queued (queues st)) \<Longrightarrow> distinct (queued (queues (step E st ev)))"
  by (cases ev)
    (simp_all add: distinct_queued_register_player distinct_queued_join_queue
      distinct_queued_disconnect)

lemma distinct_queued_foldl:
  "distinct (queued (queues st)) \<Longrightarrow> distinct (queued (queues (foldl (step E) st evs)))"
  by (induction evs arbitrary: st) (simp_all add: distinct_queued_step)

lemma distinct_queued_run: "distinct (queued (queues (run E s evs)))"
  unfolding run_def by (rule distinct_queued_foldl) (simp add: init_server_def)


lemma db_auto_register [simp]: "db (auto_register st sid d) = db st"
  by (simp add: auto_register_def uuidv4_def split: option.splits)

lemma set_update_cases:
  "(m, q) \<in> set (AList.update mode q' qs) \<Longrightarrow> (m, q) \<in> set qs \<or> (m = mode \<and> q = q')"
  by (induction qs) (auto split: if_splits)

lemma matchPlayers_entries:
  assumes "(m, q) \<in> set (queues (matchPlayers E now c st mode fee))" and "m \<noteq> mode"
  shows "(m, q) \<in> set (queues st)"
proof (cases "map_of (queues st) mode")
  case None
  with assms show ?thesis by (simp add: matchPlayers_def)
next
  case (Some q0)
  obtain q' r where sp: "select_pair (find_player st) q0 = (q', r)"
    by (cases "select_pair (find_player st) q0")
  with Some assms(1) have "(m, q) \<in> set (AList.update mode q' (queues st))"
    by (cases r) (auto simp: matchPlayers_def)
  with assms(2) show ?thesis by (auto dest: set_update_cases)
qed

lemma join_queue_other_modes:
  assumes inv: "distinct (queued (queues st))"
      and p: "map_of (players (auto_register st sid d)) sid = Some p"
      and ok: "insufficient_balance (db st) p (fee_of d) = None"
      and mem: "(m, q) \<in> set (queues (join_queue E now c st sid d))"
      and pid: "playerId p \<in> set q"
  shows "m = mode_of d"
proof (rule ccontr)
  assume ne: "m \<noteq> mode_of d"
  let ?qs = "enqueue (mode_of d) (playerId p) (queues st)"
  from mem p ok ne have "(m, q) \<in> set ?qs"
    by (auto simp: join_queue_def Let_def split: if_splits dest: matchPlayers_entries)
  with enqueue_membership(2) [OF inv this pid] ne show False by simp
qed

text \<open>
  C7. In every state the server reaches, no player id occurs twice in the queues taken
  together, so a participant is in at most one queue. A \<^verbatim>\<open>join_queue\<close> that is not
  rejected leaves the participant in no queue but the one of the requested mode, and
  \<^verbatim>\<open>disconnect\<close> leaves the participant in no queue at all.
\<close>

theorem single_queue_membership:
  "distinct (queued (queues (run E s evs))) \<and>
   (\<forall>sid d now c p.
      map_of (players (auto_register (run E s evs) sid d)) sid = Some p \<and>
      insufficient_balance (db (run E s evs)) p (fee_of d) = None \<longrightarrow>
      (\<forall>(m, q) \<in> set (queues (join_queue E now c (run E s evs) sid d)).
         playerId p \<in> set q \<longrightarrow> m = mode_of d)) \<and>
   (\<forall>sid p. map_of (players (run E s evs)) sid = Some p \<longrightarrow>
      playerId p \<notin> set (queued (queues (disconnect (run E s evs) sid))))"
proof (intro conjI allI impI)
  show "distinct (queued (queues (run E s evs)))"
    by (rule distinct_queued_run)
next
  fix sid d now c p
  assume "map_of (players (auto_register (run E s evs) sid d)) sid = Some p \<and>
          insufficient_balance (db (run E s evs)) p (fee_of d) = None"
  then have a: "map_of (players (auto_register (run E s evs) sid d)) sid = Some p"
    and b: "insufficient_balance (db (run E s evs)) p (fee_of d) = None"
    by simp_all
  show "\<forall>(m, q) \<in> set (queues (join_queue E now c (run E s evs) sid d)).
               playerId p \<in> set q \<longrightarrow> m = mode_of d"
  proof clarify
    fix m q
    assume "(m, q) \<in> set (queues (join_queue E now c (run E s evs) sid d))"
      and "playerId p \<in> set q"
    then show "m = mode_of d"
      by (rule join_queue_other_modes [OF distinct_queued_run a b])
  qed
next
  fix sid p
  assume "map_of (players (run E s evs)) sid = Some p"
  then show "playerId p \<notin> set (queued (queues (disconnect (run E s evs) sid)))"
    using notin_queued_remove [OF distinct_queued_run, of "playerId p" E s evs]
    by (simp add: disconnect_def)
qed

lemma one_waiting_eq:
  "one_waiting =
     \<lparr> matches = Map.empty,
       players = [(1, (new_Player 0 1 Undefined None)\<lparr> p_gameMode := Some ''BULLET'',
                                                        p_entryFee := Some 10 \<rparr>)],
       queues = [(''BULLET'', [0]), (''BLITZ'', []), (''RAPID'', []), (''CLASSICAL'', []),
                 (''TOURNAMENT'', [])],
       db = store0, outbox = [], next_uuid = 1 \<rparr>"
  by (simp add: one_waiting_def handler_defs sample_defs eval_nat_numeral)

theorem single_queue_membership_witness:
  "queues one_waiting =
     [(''BULLET'', [0]), (''BLITZ'', []), (''RAPID'', []), (''CLASSICAL'', []), (''TOURNAMENT'', [])] \<and>
   queues (join_queue sample_chess 5 True one_waiting 1 blitz_guest) =
     [(''BULLET'', []), (''BLITZ'', [0]), (''RAPID'', []), (''CLASSICAL'', []), (''TOURNAMENT'', [])] \<and>
   distinct (queued (queues one_waiting)) \<and>
   map fst (filter (\<lambda>(m, q). 0 \<in> set q)
              (queues (join_queue sample_chess 5 True one_waiting 1 blitz_guest))) = [''BLITZ''] \<and>
   0 \<notin> set (queued (queues (disconnect one_waiting 1)))"
proof -
  note inst = single_queue_membership [of sample_chess store0 "[JoinQueue 1 guest True 0]",
      folded one_waiting_def]
  let ?p = "(new_Player 0 1 Undefined None)\<lparr> p_gameMode := Some ''BULLET'', p_entryFee := Some 10 \<rparr>"
  have p: "map_of (players one_waiting) 1 = Some ?p"
    by (simp add: one_waiting_eq)
  have p': "map_of (players (auto_register one_waiting 1 blitz_guest)) 1 = Some ?p"
    by (simp add: one_waiting_eq auto_register_def)
  have ok: "insufficient_balance (db one_waiting) ?p (fee_of blitz_guest) = None"
    by (simp add: insufficient_balance_def new_Player_def)
  have pid: "playerId ?p = 0" "mode_of blitz_guest = ''BLITZ''"
    by (simp_all add: new_Player_def mode_of_def blitz_guest_def)
  from inst have d: "distinct (queued (queues one_waiting))" by blast
  from inst p' ok have j: "\<forall>(m, q) \<in> set (queues (join_queue sample_chess 5 True one_waiting 1 blitz_guest)).
      playerId ?p \<in> set q \<longrightarrow> m = mode_of blitz_guest"
    by blast
  from inst p have dc: "playerId ?p \<notin> set (queued (queues (disconnect one_waiting 1)))"
    by blast
  have q: "queues (join_queue sample_chess 5 True one_waiting 1 blitz_guest) =
     [(''BULLET'', []), (''BLITZ'', [0]), (''RAPID'', []), (''CLASSICAL'', []), (''TOURNAMENT'', [])]"
    by (simp add: one_waiting_eq blitz_guest_def handler_defs)
  have q0: "queues one_waiting =
     [(''BULLET'', [0]), (''BLITZ'', []), (''RAPID'', []), (''CLASSICAL'', []), (''TOURNAMENT'', [])]"
    by (simp add: one_waiting_eq)
  have f: "map fst (filter (\<lambda>(m, q). 0 \<in> set q)
              (queues (join_queue sample_chess 5 True one_waiting 1 blitz_guest))) = [''BLITZ'']"
    using j [unfolded pid] unfolding q by simp
  from q0 q d f dc [unfolded pid] show ?thesis
    by blast
qed

subsection \<open>join_queue\<close>

lemma matches_auto_register [simp]: "matches (auto_register st sid d) = matches st"
  by (simp add: auto_register_def uuidv4_def split: option.splits)

lemma outbox_auto_register [simp]: "outbox (auto_register st sid d) = outbox st"
  by (simp add: auto_register_def uuidv4_def split: option.splits)

text \<open>
  C6. A \<^verbatim>\<open>join_queue\<close> of a participant whose account holds less than the stake of the
  request (\<open>fee_of\<close>, the entry fee of the payload after its default) emits one
  \<^verbatim>\<open>error_message\<close> with the required and the available amount to the sender and leaves
  every queue, the matches and the store as they were. Whenever the request changes a
  queue, the balance is at least the stake.
\<close>

theorem join_queue_insufficient_balance:
  assumes "map_of (players (auto_register st sid d)) sid = Some p"
      and "dbId p = Some u"
      and "users (db st) u = Some row"
  shows "(wallet_balance row < fee_of d \<longrightarrow>
            queues (join_queue E now c st sid d) = queues st \<and>
            matches (join_queue E now c st sid d) = matches st \<and>
            db (join_queue E now c st sid d) = db st \<and>
            outbox (join_queue E now c st sid d) =
              outbox st @ [(sid, ErrorMessage (fee_of d) (wallet_balance row))]) \<and>
         (queues (join_queue E now c st sid d) \<noteq> queues st \<longrightarrow> fee_of d \<le> wallet_balance row)"
proof -
  have "wallet_balance row < fee_of d \<Longrightarrow>
        join_queue E now c st sid d =
          emit sid (ErrorMessage (fee_of d) (wallet_balance row)) (auto_register st sid d)"
    using assms by (simp add: join_queue_def Let_def insufficient_balance_def)
  then show ?thesis
    by (cases "wallet_balance row < fee_of d") (simp_all add: emit_def)
qed

lemma registered10_eq:
  "registered10 =
     \<lparr> matches = Map.empty, players = [(1, new_Player 0 1 (UserId 10) None)],
       queues = [(''BULLET'', []), (''BLITZ'', []), (''RAPID'', []), (''CLASSICAL'', []),
                 (''TOURNAMENT'', [])],
       db = store0, outbox = [], next_uuid = 1 \<rparr>"
  by (simp add: registered10_def handler_defs sample_defs eval_nat_numeral)

theorem join_queue_insufficient_balance_witness:
  "map_option dbId (map_of (players registered10) 1) = Some (Some 10) \<and>
   map_option wallet_balance (users (db registered10) 10) = Some 5 \<and>
   fee_of account10 = 10 \<and>
   queues (join_queue sample_chess 0 True registered10 1 account10) = queues registered10 \<and>
   outbox (join_queue sample_chess 0 True registered10 1 account10) = [(1, ErrorMessage 10 5)]"
proof -
  let ?row = "\<lparr> wallet_balance = 5, rating = 1200, wins = 0, losses = 0, draws = 0 \<rparr>"
  have p: "map_of (players (auto_register registered10 1 account10)) 1 =
             Some (new_Player 0 1 (UserId 10) None)"
    by (simp add: registered10_eq auto_register_def)
  have u: "dbId (new_Player 0 1 (UserId 10) None) = Some 10"
    by (simp add: new_Player_def)
  have row: "users (db registered10) 10 = Some ?row"
    by (simp add: registered10_eq store0_def)
  have fee: "fee_of account10 = 10"
    by (simp add: fee_of_def account10_def)
  have lt: "wallet_balance ?row < fee_of account10"
    by (simp add: fee)
  have ob: "outbox registered10 = []" and pl: "map_option dbId (map_of (players registered10) 1) = Some (Some 10)"
    by (simp_all add: registered10_eq new_Player_def)
  from join_queue_insufficient_balance [OF p u row, of sample_chess 0 True] lt
  have "queues (join_queue sample_chess 0 True registered10 1 account10) = queues registered10"
    and "outbox (join_queue sample_chess 0 True registered10 1 account10) =
           outbox registered10 @ [(1, ErrorMessage (fee_of account10) (wallet_balance ?row))]"
    by blast+
  with fee ob pl row show ?thesis by simp
qed

subsection \<open>Pairing\<close>




lemma low_waiting_eq:
  "low_waiting =
     \<lparr> matches = Map.empty,
       players = [(1, (new_Player 0 1 (UserId 10) None)\<lparr> p_gameMode := Some ''BULLET'',
                                                         p_entryFee := Some 5 \<rparr>),
                  (2, new_Player 1 2 (UserId 11) None)],
       queues = [(''BULLET'', [0]), (''BLITZ'', []), (''RAPID'', []), (''CLASSICAL'', []),
                 (''TOURNAMENT'', [])],
       db = store0, outbox = [], next_uuid = 2 \<rparr>"
  by (simp add: low_waiting_def low_stake_def handler_defs sample_defs eval_nat_numeral)



subsection \<open>register_player\<close>

lemma mem_queued_evict_loop:
  "x \<in> set (queued (queues (evict_loop sid userId st ps))) \<Longrightarrow> x \<in> set (queued (queues st))"
proof (induction ps arbitrary: st)
  case Nil
  then show ?case by simp
next
  case (Cons a ps)
  obtain s q where a: "a = (s, q)" by (cases a)
  show ?case
  proof (cases "strict_eq (dbId q) userId \<and> s \<noteq> sid")
    case True
    with Cons.prems a have "x \<in> set (queued (queues (evict_loop sid userId (evict s q st) ps)))"
      by simp
    then have "x \<in> set (queued (queues (evict s q st)))"
      by (rule Cons.IH)
    then show ?thesis
      by (auto simp: evict_def dest: mem_queued_remove)
  next
    case False
    with Cons.prems a have "x \<in> set (queued (queues (evict_loop sid userId st ps)))"
      by auto
    then show ?thesis by (rule Cons.IH)
  qed
qed

lemma evicted_not_queued:
  assumes "distinct (queued (queues st))" and "(sId, p) \<in> set ps"
      and "strict_eq (dbId p) userId" and "sId \<noteq> sid"
  shows "playerId p \<notin> set (queued (queues (evict_loop sid userId st ps)))"
  using assms
proof (induction ps arbitrary: st)
  case Nil
  then show ?case by simp
next
  case (Cons a ps)
  obtain s q where a: "a = (s, q)" by (cases a)
  let ?st1 = "if strict_eq (dbId q) userId \<and> s \<noteq> sid then evict s q st else st"
  have step: "evict_loop sid userId st (a # ps) = evict_loop sid userId ?st1 ps"
    by (simp add: a)
  have d1: "distinct (queued (queues ?st1))"
    using Cons.prems(1) by (simp add: distinct_queued_evict)
  show ?case
  proof (cases "a = (sId, p)")
    case True
    with a Cons.prems have "?st1 = evict sId p st" by simp
    then have "playerId p \<notin> set (queued (queues ?st1))"
      using Cons.prems(1) by (simp add: evict_def notin_queued_remove)
    then show ?thesis
      unfolding step using mem_queued_evict_loop by blast
  next
    case False
    with Cons.prems have "(sId, p) \<in> set ps" by simp
    from Cons.IH [OF d1 this Cons.prems(3,4)] show ?thesis
      unfolding step .
  qed
qed

lemma players_evict_loop_subset:
  "e \<in> set (players (evict_loop sid userId st ps)) \<Longrightarrow> e \<in> set (players st)"
proof (induction ps arbitrary: st)
  case Nil
  then show ?case by simp
next
  case (Cons a ps)
  obtain s q where a: "a = (s, q)" by (cases a)
  let ?st1 = "if strict_eq (dbId q) userId \<and> s \<noteq> sid then evict s q st else st"
  from Cons.prems a have "e \<in> set (players (evict_loop sid userId ?st1 ps))"
    by simp
  then have "e \<in> set (players ?st1)" by (rule Cons.IH)
  then show ?case
    by (auto simp: evict_def emit_def AList.delete_eq split: if_splits)
qed

lemma evicted_key_gone:
  assumes "(sId, p) \<in> set ps" and "strict_eq (dbId p) userId" and "sId \<noteq> sid"
  shows "sId \<notin> fst ` set (players (evict_loop sid userId st ps))"
  using assms
proof (induction ps arbitrary: st)
  case Nil
  then show ?case by simp
next
  case (Cons a ps)
  obtain s q where a: "a = (s, q)" by (cases a)
  let ?st1 = "if strict_eq (dbId q) userId \<and> s \<noteq> sid then evict s q st else st"
  have step: "evict_loop sid userId st (a # ps) = evict_loop sid userId ?st1 ps"
    by (simp add: a)
  show ?case
  proof (cases "a = (sId, p)")
    case True
    with a Cons.prems have "?st1 = evict sId p st" by simp
    then have "sId \<notin> fst ` set (players ?st1)"
      by (auto simp: evict_def emit_def AList.delete_eq)
    then show ?thesis
      unfolding step using players_evict_loop_subset by fastforce
  next
    case False
    with Cons.prems have "(sId, p) \<in> set ps" by simp
    from Cons.IH [OF this Cons.prems(2,3)] show ?thesis
      unfolding step .
  qed
qed

lemma outbox_evict_loop:
  "outbox (evict_loop sid userId st ps) =
     outbox st @ map (\<lambda>(s, p). (s, ForceDisconnect))
                   (filter (\<lambda>(s, p). strict_eq (dbId p) userId \<and> s \<noteq> sid) ps)"
proof (induction ps arbitrary: st)
  case Nil
  then show ?case by simp
next
  case (Cons a ps)
  obtain s q where a: "a = (s, q)" by (cases a)
  show ?case
    by (cases "strict_eq (dbId q) userId \<and> s \<noteq> sid")
      (simp_all add: a Cons.IH evict_def emit_def)
qed

lemma kept_entry_other_account:
  assumes "(s, q) \<in> set (players (evict_loop sid userId st (players st)))" and "s \<noteq> sid"
  shows "\<not> strict_eq (dbId q) userId"
proof
  assume eq: "strict_eq (dbId q) userId"
  from assms(1) have "(s, q) \<in> set (players st)"
    by (rule players_evict_loop_subset)
  from evicted_key_gone [OF this eq assms(2)] assms(1) show False
    by force
qed

text \<open>
  C9. When \<^verbatim>\<open>register_player\<close> runs for socket \<open>sid\<close> with the id \<open>u\<close> of an account, and
  \<^verbatim>\<open>players\<close> holds an entry for another socket \<open>sId\<close> with the same account, then afterwards
  the older player is in no queue, \<^verbatim>\<open>force_disconnect\<close> has been emitted to \<open>sId\<close>, \<^verbatim>\<open>players\<close>
  has no entry for \<open>sId\<close>, and the only entry with account \<open>u\<close> is the new one for \<open>sid\<close>.
  The queues hold no player twice, as in every state the server reaches.
\<close>

theorem register_player_evicts_older_entry:
  assumes inv: "distinct (queued (queues st))"
      and old: "(sId, p) \<in> set (players st)" and u: "dbId p = Some u" and ne: "sId \<noteq> sid"
  shows "playerId p \<notin> set (queued (queues (register_player st sid (UserId u)))) \<and>
         (\<exists>es. outbox (register_player st sid (UserId u)) = outbox st @ es \<and>
               (sId, ForceDisconnect) \<in> set es) \<and>
         map_of (players (register_player st sid (UserId u))) sId = None \<and>
         (\<forall>(s, q) \<in> set (players (register_player st sid (UserId u))). dbId q = Some u \<longrightarrow> s = sid) \<and>
         map_option dbId (map_of (players (register_player st sid (UserId u))) sid) = Some (Some u)"
proof -
  let ?st1 = "evict_loop sid (UserId u) st (players st)"
  let ?new = "new_Player (next_uuid ?st1) sid (UserId u) None"
  from u have eq: "strict_eq (dbId p) (UserId u)" by simp
  have q: "queues (register_player st sid (UserId u)) = queues ?st1"
    and ob: "outbox (register_player st sid (UserId u)) = outbox ?st1"
    and pl: "players (register_player st sid (UserId u)) = AList.update sid ?new (players ?st1)"
    by (simp_all add: register_player_def Let_def uuidv4_def)
  have c1: "playerId p \<notin> set (queued (queues (register_player st sid (UserId u))))"
    unfolding q by (rule evicted_not_queued [OF inv old eq ne])
  have "(sId, ForceDisconnect) \<in>
          set (map (\<lambda>(s, p). (s, ForceDisconnect))
                (filter (\<lambda>(s, p). strict_eq (dbId p) (UserId u) \<and> s \<noteq> sid) (players st)))"
    using old eq ne by force
  then have c2: "\<exists>es. outbox (register_player st sid (UserId u)) = outbox st @ es \<and>
                  (sId, ForceDisconnect) \<in> set es"
    unfolding ob outbox_evict_loop by blast
  have "sId \<notin> fst ` set (players ?st1)"
    by (rule evicted_key_gone [OF old eq ne])
  then have "map_of (players ?st1) sId = None"
    by (simp add: map_of_eq_None_iff)
  with ne have c3: "map_of (players (register_player st sid (UserId u))) sId = None"
    unfolding pl by (simp add: update_conv')
  have c4: "\<forall>(s, q) \<in> set (players (register_player st sid (UserId u))). dbId q = Some u \<longrightarrow> s = sid"
  proof clarify
    fix s q
    assume mem: "(s, q) \<in> set (players (register_player st sid (UserId u)))" and d: "dbId q = Some u"
    show "s = sid"
    proof (rule ccontr)
      assume n: "s \<noteq> sid"
      from mem n have "(s, q) \<in> set (players ?st1)"
        unfolding pl by (auto dest: set_update_cases)
      from kept_entry_other_account [OF this n] d show False by simp
    qed
  qed
  have c5: "map_option dbId (map_of (players (register_player st sid (UserId u))) sid) = Some (Some u)"
    unfolding pl by (simp add: update_conv' new_Player_def)
  from c1 c2 c3 c4 c5 show ?thesis by blast
qed

theorem register_player_evicts_older_entry_witness:
  "map_option dbId (map_of (players low_waiting) 1) = Some (Some 10) \<and>
   queues low_waiting =
     [(''BULLET'', [0]), (''BLITZ'', []), (''RAPID'', []), (''CLASSICAL'', []), (''TOURNAMENT'', [])] \<and>
   queues (register_player low_waiting 3 (UserId 10)) =
     [(''BULLET'', []), (''BLITZ'', []), (''RAPID'', []), (''CLASSICAL'', []), (''TOURNAMENT'', [])] \<and>
   outbox (register_player low_waiting 3 (UserId 10)) = [(1, ForceDisconnect)] \<and>
   map (\<lambda>(s, q). (s, dbId q)) (players (register_player low_waiting 3 (UserId 10))) =
     [(2, Some 11), (3, Some 10)] \<and>
   0 \<notin> set (queued (queues (register_player low_waiting 3 (UserId 10)))) \<and>
   map_of (players (register_player low_waiting 3 (UserId 10))) 1 = None \<and>
   map_option dbId (map_of (players (register_player low_waiting 3 (UserId 10))) 3) =
     Some (Some 10)"
proof -
  let ?p = "(new_Player 0 1 (UserId 10) None)\<lparr> p_gameMode := Some ''BULLET'', p_entryFee := Some 5 \<rparr>"
  have inv: "distinct (queued (queues low_waiting))"
    by (simp add: low_waiting_eq)
  have old: "(1, ?p) \<in> set (players low_waiting)"
    by (simp add: low_waiting_eq)
  have u: "dbId ?p = Some 10" and pid: "playerId ?p = 0"
    by (simp_all add: new_Player_def)
  have ne: "(1::nat) \<noteq> 3" by simp
  note inst = register_player_evicts_older_entry [OF inv old u ne, unfolded pid]
  have ev: "queues (register_player low_waiting 3 (UserId 10)) =
     [(''BULLET'', []), (''BLITZ'', []), (''RAPID'', []), (''CLASSICAL'', []), (''TOURNAMENT'', [])]"
    "outbox (register_player low_waiting 3 (UserId 10)) = [(1, ForceDisconnect)]"
    "map (\<lambda>(s, q). (s, dbId q)) (players (register_player low_waiting 3 (UserId 10))) =
     [(2, Some 11), (3, Some 10)]"
    by (simp_all add: low_waiting_eq register_player_def evict_def emit_def remove_from_queues_def
        uuidv4_def new_Player_def Let_def AList.delete_eq)
  have a: "map_option dbId (map_of (players low_waiting) 1) = Some (Some 10)"
    "queues low_waiting =
     [(''BULLET'', [0]), (''BLITZ'', []), (''RAPID'', []), (''CLASSICAL'', []), (''TOURNAMENT'', [])]"
    by (simp_all add: low_waiting_eq new_Player_def)
  from inst a ev show ?thesis by blast
qed

subsection \<open>Sessions in the live index\<close>

lemma matches_on_db [simp]: "matches (on_db f st) = matches st"
  by (simp add: on_db_def)

lemma matches_insert_transaction [simp]: "matches (insert_transaction uid a ty d st) = matches st"
  by (simp add: insert_transaction_def uuidv4_def)

lemma matches_insert_company_earning [simp]:
  "matches (insert_company_earning mid a d st) = matches st"
  by (simp add: insert_company_earning_def uuidv4_def)

lemma matches_refund_side [simp]: "matches (refund_side uid fee mid st) = matches st"
  by (simp add: refund_side_def split: option.splits)

lemma matches_entry_fee_tx [simp]: "matches (entry_fee_tx p fee mode st) = matches st"
  by (simp add: entry_fee_tx_def split: option.splits)

lemma next_uuid_entry_fee_tx: "next_uuid st \<le> next_uuid (entry_fee_tx p fee mode st)"
  by (simp add: entry_fee_tx_def split: option.splits)

lemma matches_handleGameOver: "handleGameOver st m = Inr st' \<Longrightarrow> matches st' = matches st"
  by (auto simp: handleGameOver_def Let_def split: option.splits if_splits)

lemma matches_evict_loop [simp]: "matches (evict_loop sid userId st ps) = matches st"
proof (induction ps arbitrary: st)
  case Nil
  then show ?case by simp
next
  case (Cons a ps)
  obtain s q where a: "a = (s, q)" by (cases a)
  show ?case
    by (cases "strict_eq (dbId q) userId \<and> s \<noteq> sid") (simp_all add: a Cons.IH evict_def)
qed

lemma next_uuid_evict_loop [simp]: "next_uuid (evict_loop sid userId st ps) = next_uuid st"
proof (induction ps arbitrary: st)
  case Nil
  then show ?case by simp
next
  case (Cons a ps)
  obtain s q where a: "a = (s, q)" by (cases a)
  show ?case
    by (cases "strict_eq (dbId q) userId \<and> s \<noteq> sid") (simp_all add: a Cons.IH evict_def)
qed

lemma matches_register_player [simp]: "matches (register_player st sid userId) = matches st"
  by (simp add: register_player_def Let_def uuidv4_def)

lemma matches_disconnect [simp]: "matches (disconnect st sid) = matches st"
  by (simp add: disconnect_def split: option.splits)

lemma matches_start_match:
  "\<exists>k m. next_uuid st \<le> k \<and> status m = Active \<and> result m = None \<and>
         matches (start_match E now c mode fee p1 p2 st) = (matches st)(k \<mapsto> m)"
proof -
  let ?st4 = "entry_fee_tx p2 fee mode (entry_fee_tx p1 fee mode
                (on_db (add_balance (dbId p2) (- fee)) (on_db (add_balance (dbId p1) (- fee)) st)))"
  let ?k = "next_uuid ?st4"
  let ?m = "new_Match E now ?k (if c then playerId p1 else playerId p2)
              (if c then playerId p2 else playerId p1) (if c then dbId p1 else dbId p2)
              (if c then dbId p2 else dbId p1) mode fee"
  have "next_uuid st \<le> ?k"
    using next_uuid_entry_fee_tx [of "on_db (add_balance (dbId p2) (- fee)) (on_db (add_balance (dbId p1) (- fee)) st)" p1 fee mode]
      next_uuid_entry_fee_tx [of "entry_fee_tx p1 fee mode
                (on_db (add_balance (dbId p2) (- fee)) (on_db (add_balance (dbId p1) (- fee)) st))" p2 fee mode]
    by simp
  moreover have "status ?m = Active \<and> result ?m = None"
    by (simp add: new_Match_def)
  moreover have "matches (start_match E now c mode fee p1 p2 st) = (matches st)(?k \<mapsto> ?m)"
    by (simp add: start_match_def Let_def uuidv4_def)
  ultimately show ?thesis by blast
qed

lemma matches_matchPlayers:
  "matches (matchPlayers E now c st mode fee) = matches st \<or>
   (\<exists>k m. next_uuid st \<le> k \<and> status m = Active \<and> result m = None \<and>
          matches (matchPlayers E now c st mode fee) = (matches st)(k \<mapsto> m))"
proof (cases "map_of (queues st) mode")
  case None
  then show ?thesis by (simp add: matchPlayers_def)
next
  case (Some q)
  obtain q' r where sp: "select_pair (find_player st) q = (q', r)"
    by (cases "select_pair (find_player st) q")
  show ?thesis
  proof (cases r)
    case None
    with Some sp show ?thesis by (simp add: matchPlayers_def)
  next
    case r: (Some pp)
    obtain p1 p2 where pp: "pp = (p1, p2)" by (cases pp)
    from matches_start_match [of "st\<lparr> queues := AList.update mode q' (queues st) \<rparr>" E now c mode fee p1 p2]
    show ?thesis
      using Some sp r pp by (simp add: matchPlayers_def)
  qed
qed

lemma next_uuid_auto_register: "next_uuid st \<le> next_uuid (auto_register st sid d)"
  by (simp add: auto_register_def uuidv4_def split: option.splits)

lemma matches_join_queue:
  "matches (join_queue E now c st sid d) = matches st \<or>
   (\<exists>k m. next_uuid st \<le> k \<and> status m = Active \<and> result m = None \<and>
          matches (join_queue E now c st sid d) = (matches st)(k \<mapsto> m))"
proof -
  let ?st1 = "auto_register st sid d"
  show ?thesis
  proof (cases "map_of (players ?st1) sid")
    case None
    then show ?thesis by (simp add: join_queue_def Let_def)
  next
    case (Some player)
    show ?thesis
    proof (cases "insufficient_balance (db ?st1) player (fee_of d)")
      case bal: (Some balance)
      with Some show ?thesis by (simp add: join_queue_def Let_def)
    next
      case None
      let ?st3 = "?st1\<lparr> queues := enqueue (mode_of d) (playerId player) (queues ?st1),
                        players := AList.map_entry sid
                          (\<lambda>p. p\<lparr> p_gameMode := Some (mode_of d), p_entryFee := Some (fee_of d) \<rparr>)
                          (players ?st1) \<rparr>"
      have eq: "join_queue E now c st sid d = ?st3 \<or>
                join_queue E now c st sid d = matchPlayers E now c ?st3 (mode_of d) (fee_of d)"
        using Some None by (simp add: join_queue_def Let_def)
      have n: "next_uuid st \<le> next_uuid ?st3" "matches ?st3 = matches st"
        using next_uuid_auto_register [of st sid d] by simp_all
      from eq show ?thesis
      proof
        assume "join_queue E now c st sid d = ?st3"
        with n show ?thesis by simp
      next
        assume mp: "join_queue E now c st sid d = matchPlayers E now c ?st3 (mode_of d) (fee_of d)"
        from matches_matchPlayers [of E now c ?st3 "mode_of d" "fee_of d"] show ?thesis
          unfolding mp
        proof
          assume "matches (matchPlayers E now c ?st3 (mode_of d) (fee_of d)) = matches ?st3"
          with n(2) show "matches (matchPlayers E now c ?st3 (mode_of d) (fee_of d)) = matches st \<or>
            (\<exists>k m. next_uuid st \<le> k \<and> status m = Active \<and> result m = None \<and>
               matches (matchPlayers E now c ?st3 (mode_of d) (fee_of d)) = (matches st)(k \<mapsto> m))"
            by simp
        next
          assume "\<exists>k m. next_uuid ?st3 \<le> k \<and> status m = Active \<and> result m = None \<and>
               matches (matchPlayers E now c ?st3 (mode_of d) (fee_of d)) = (matches ?st3)(k \<mapsto> m)"
          then obtain k m where km: "next_uuid ?st3 \<le> k" "status m = Active" "result m = None"
            "matches (matchPlayers E now c ?st3 (mode_of d) (fee_of d)) = (matches ?st3)(k \<mapsto> m)"
            by blast
          from km(1) n(1) have "next_uuid st \<le> k" by (rule_tac le_trans)
          with km(2,3,4) n(2)
          show "matches (matchPlayers E now c ?st3 (mode_of d) (fee_of d)) = matches st \<or>
            (\<exists>k m. next_uuid st \<le> k \<and> status m = Active \<and> result m = None \<and>
               matches (matchPlayers E now c ?st3 (mode_of d) (fee_of d)) = (matches st)(k \<mapsto> m))"
            by metis
        qed
      qed
    qed
  qed
qed

lemma late_move_sync:
  "make_move_sync sample_chess 70000 two_guests 1 first_move =
     (two_guests\<lparr> matches := [2 \<mapsto> timed_out_match],
                   outbox := outbox two_guests @
                     [(1, MoveResult ''e2e4'' Black 60000 0 ''e2'' ''e4'' None),
                      (2, MoveResult ''e2e4'' Black 60000 0 ''e2'' ''e4'' None)] \<rparr>,
      Some timed_out_match)"
  by (simp add: two_guests_eq first_move_def timed_out_match_def guest_match_def handler_defs
      sample_defs)

lemma awaiting_settlement_eq:
  "awaiting_settlement =
     two_guests\<lparr> matches := [2 \<mapsto> timed_out_match],
                  outbox := outbox two_guests @
                    [(1, MoveResult ''e2e4'' Black 60000 0 ''e2'' ''e4'' None),
                     (2, MoveResult ''e2e4'' Black 60000 0 ''e2'' ''e4'' None)] \<rparr>"
  unfolding awaiting_settlement_def late_move_sync by simp

lemma stake_10_amounts:
  "js_times 10 (to_double (7 / 10)) = 7"
  "js_times 10 (to_double (3 / 10)) = 3"
  "js_plus 10 7 = 17"
  by code_simp+

lemma makeMove_accepted:
  assumes "chess_move E (chess m) f t pr = Some p"
  shows "\<exists>m'. makeMove E now m f t pr = Inr m' \<and> chess m' = p \<and> fen m' = chess_fen E p \<and>
              turn m' = chess_turn E p \<and> lastMoveTs (clock m') = now \<and>
              (status m = Finished \<longrightarrow> status m' = Finished) \<and>
              (chess_isCheckmate E p \<longrightarrow>
                 result m' = Some \<lparr> winner = (if chess_turn E p = White then WBlack else WWhite),
                                     reason = Checkmate \<rparr>)"
  using assms by (simp add: makeMove_def updateClock_def Let_def)

lemma move_after_timeout:
  "makeMove sample_chess 70001 timed_out_match ''g8'' ''mate'' None = Inr mated_after_timeout"
  by (simp add: mated_after_timeout_def timed_out_match_def guest_match_def handler_defs sample_defs)

text \<open>
  C2. The claim: once a session is finished its outcome never changes, and a further move
  against it is a silent no-op, with no change of the session and no second settlement.
  The code: \<^verbatim>\<open>Match.makeMove\<close> and the \<^verbatim>\<open>make_move\<close> handler never read \<^verbatim>\<open>status\<close>, although
  \<^verbatim>\<open>updateClock\<close> carries the comment \<^verbatim>\<open>Only deduct time if game is active\<close>, and the handler that
  finishes a session deletes it from \<^verbatim>\<open>matches\<close> only after \<^verbatim>\<open>await handleGameOver(match)\<close>.
  A move that chess.js accepts and that names a finished session still in \<^verbatim>\<open>matches\<close> is
  applied: position, side to move and clock are written, a checkmate overwrites the
  outcome, both sides are sent \<^verbatim>\<open>move_result\<close> and \<^verbatim>\<open>handleGameOver\<close> runs on the session once
  more.
\<close>

theorem make_move_applies_to_a_finished_session:
  assumes m: "matches st (md_matchId d) = Some m"
      and f: "status m = Finished"
      and mv: "chess_move E (chess m) (md_from d) (md_to d) (md_promotion d) = Some p"
  shows "\<exists>st1 m'. make_move_sync E now st sid d = (st1, Some m') \<and>
           matches st1 (md_matchId d) = Some m' \<and>
           chess m' = p \<and> fen m' = chess_fen E p \<and> turn m' = chess_turn E p \<and>
           lastMoveTs (clock m') = now \<and> status m' = Finished \<and>
           (chess_isCheckmate E p \<longrightarrow>
              result m' = Some \<lparr> winner = (if chess_turn E p = White then WBlack else WWhite),
                                  reason = Checkmate \<rparr>) \<and>
           make_move E now st sid d =
             (case handleGameOver st1 m' of
                Inl e \<Rightarrow> st1
              | Inr st2 \<Rightarrow> st2\<lparr> matches := (matches st2)(md_matchId d := None) \<rparr>)"
proof -
  from makeMove_accepted [OF mv, of now] f obtain m' where
    mm: "makeMove E now m (md_from d) (md_to d) (md_promotion d) = Inr m'"
    and a: "chess m' = p" "fen m' = chess_fen E p" "turn m' = chess_turn E p"
      "lastMoveTs (clock m') = now" "status m' = Finished"
      "chess_isCheckmate E p \<longrightarrow>
         result m' = Some \<lparr> winner = (if chess_turn E p = White then WBlack else WWhite),
                             reason = Checkmate \<rparr>"
    by blast
  let ?st1 = "fst (make_move_sync E now st sid d)"
  have s: "make_move_sync E now st sid d = (?st1, Some m')"
    using m mm a(5) by (simp add: make_move_sync_def Let_def)
  have k: "matches ?st1 (md_matchId d) = Some m'"
    using m mm by (simp add: make_move_sync_def Let_def)
  have h: "make_move E now st sid d =
             (case handleGameOver ?st1 m' of
                Inl e \<Rightarrow> ?st1
              | Inr st2 \<Rightarrow> st2\<lparr> matches := (matches st2)(md_matchId d := None) \<rparr>)"
    unfolding make_move_def by (subst s) simp
  from s k a h show ?thesis by blast
qed

text \<open>
  A first move that arrives at time \<open>70000\<close> finishes match \<open>2\<close> on time, a win of White.
  While its settlement is pending, a move at time \<open>70001\<close> that mates is applied: the clock
  of White is charged, the outcome becomes a win of Black by checkmate, and the handler
  of that move, run to its end, emits four more events and settles the session for
  Black: it records an earning of \<open>3\<close> and winnings of \<open>17\<close>.
\<close>

theorem make_move_applies_to_a_finished_session_witness:
  "make_move_sync sample_chess 70000 two_guests 1 first_move =
     (awaiting_settlement, Some timed_out_match) \<and>
   matches awaiting_settlement 2 = Some timed_out_match \<and>
   status timed_out_match = Finished \<and>
   result timed_out_match = Some \<lparr> winner = WWhite, reason = Timeout \<rparr> \<and>
   fen timed_out_match = ''e2e4'' \<and>
   clock timed_out_match = \<lparr> whiteMs = 60000, blackMs = 0, lastMoveTs = 70000 \<rparr> \<and>
   (\<exists>st1. make_move_sync sample_chess 70001 awaiting_settlement 2 mating_move =
            (st1, Some mated_after_timeout) \<and>
          matches st1 2 = Some mated_after_timeout) \<and>
   status mated_after_timeout = Finished \<and>
   result mated_after_timeout = Some \<lparr> winner = WBlack, reason = Checkmate \<rparr> \<and>
   fen mated_after_timeout = ''e2e4g8mate'' \<and>
   clock mated_after_timeout = \<lparr> whiteMs = 59999, blackMs = 0, lastMoveTs = 70001 \<rparr> \<and>
   company_earnings (db awaiting_settlement) = [] \<and>
   map ce_amount
     (company_earnings (db (make_move sample_chess 70001 awaiting_settlement 2 mating_move))) = [3] \<and>
   map (\<lambda>t. (tx_amount t, tx_type t))
     (transactions (db (make_move sample_chess 70001 awaiting_settlement 2 mating_move))) =
     [(17, ''winnings'')] \<and>
   length (outbox (make_move sample_chess 70001 awaiting_settlement 2 mating_move)) =
     length (outbox awaiting_settlement) + 4"
proof -
  have a: "make_move_sync sample_chess 70000 two_guests 1 first_move =
             (awaiting_settlement, Some timed_out_match)"
    unfolding awaiting_settlement_eq by (rule late_move_sync)
  have m: "matches awaiting_settlement (md_matchId mating_move) = Some timed_out_match"
    by (simp add: awaiting_settlement_eq mating_move_def)
  have f: "status timed_out_match = Finished"
    by (simp add: timed_out_match_def)
  have mv: "chess_move sample_chess (chess timed_out_match) (md_from mating_move)
              (md_to mating_move) (md_promotion mating_move) =
            Some [(''g8'', ''mate''), (''e2'', ''e4'')]"
    by (simp add: timed_out_match_def mating_move_def sample_defs)
  from make_move_applies_to_a_finished_session [OF m f mv, of 70001 2]
  obtain st1 m' where s: "make_move_sync sample_chess 70001 awaiting_settlement 2 mating_move =
                            (st1, Some m')"
    and k: "matches st1 (md_matchId mating_move) = Some m'"
    and fin: "status m' = Finished"
    by blast
  have mm: "makeMove sample_chess 70001 timed_out_match (md_from mating_move)
              (md_to mating_move) (md_promotion mating_move) = Inr mated_after_timeout"
    by (simp add: mating_move_def move_after_timeout)
  have fm: "status mated_after_timeout = Finished"
    by (simp add: mated_after_timeout_def timed_out_match_def)
  from s m mm fm have m': "m' = mated_after_timeout"
    by (simp add: make_move_sync_def Let_def)
  have b: "\<exists>st1. make_move_sync sample_chess 70001 awaiting_settlement 2 mating_move =
            (st1, Some mated_after_timeout) \<and>
          matches st1 2 = Some mated_after_timeout"
    using s k unfolding m' by (auto simp: mating_move_def)
  have c: "result timed_out_match = Some \<lparr> winner = WWhite, reason = Timeout \<rparr>"
    "fen timed_out_match = ''e2e4''"
    "clock timed_out_match = \<lparr> whiteMs = 60000, blackMs = 0, lastMoveTs = 70000 \<rparr>"
    "result mated_after_timeout = Some \<lparr> winner = WBlack, reason = Checkmate \<rparr>"
    "fen mated_after_timeout = ''e2e4g8mate''"
    "clock mated_after_timeout = \<lparr> whiteMs = 59999, blackMs = 0, lastMoveTs = 70001 \<rparr>"
    by (simp_all add: timed_out_match_def mated_after_timeout_def)
  have d: "company_earnings (db awaiting_settlement) = []"
    by (simp add: awaiting_settlement_eq two_guests_eq store0_def)
  have e: "map ce_amount
     (company_earnings (db (make_move sample_chess 70001 awaiting_settlement 2 mating_move))) = [3] \<and>
   map (\<lambda>t. (tx_amount t, tx_type t))
     (transactions (db (make_move sample_chess 70001 awaiting_settlement 2 mating_move))) =
     [(17, ''winnings'')] \<and>
   length (outbox (make_move sample_chess 70001 awaiting_settlement 2 mating_move)) =
     length (outbox awaiting_settlement) + 4"
    by (simp add: awaiting_settlement_eq two_guests_eq mating_move_def timed_out_match_def
        guest_match_def handler_defs sample_defs stake_10_amounts)
  from fin have fin': "status mated_after_timeout = Finished"
    unfolding m' .
  from a m f b c d e fin' show ?thesis
    by (simp add: mating_move_def)
qed

subsection \<open>Timeout\<close>

lemma step_keeps_sessions:
  assumes "\<forall>sid d now. ev \<noteq> MakeMove sid d now" and "mid < next_uuid st"
  shows "matches (step E st ev) mid = matches st mid"
proof (cases ev)
  case (RegisterPlayer sid userId)
  then show ?thesis by simp
next
  case (JoinQueue sid d c now)
  from matches_join_queue [of E now c st sid d] assms(2) show ?thesis
    unfolding JoinQueue by auto
next
  case (MakeMove sid d now)
  with assms(1) show ?thesis by simp
next
  case (Disconnect sid)
  then show ?thesis by simp
qed

lemma updateClock_charges_turn:
  "budget (turn m) (clock (fst (updateClock now m))) =
     max 0 (budget (turn m) (clock m) - (now - lastMoveTs (clock m)))"
  by (cases "turn m") (simp_all add: updateClock_def Let_def budget_def charge_def)

lemma updateClock_white_flag:
  "whiteMs (clock (fst (updateClock now m))) = 0 \<Longrightarrow>
   status (fst (updateClock now m)) = Finished \<and>
   result (fst (updateClock now m)) = Some \<lparr> winner = WBlack, reason = Timeout \<rparr>"
  by (cases "turn m") (simp_all add: updateClock_def Let_def charge_def split: if_splits)

lemma updateClock_black_flag:
  "whiteMs (clock (fst (updateClock now m))) \<noteq> 0 \<Longrightarrow>
   blackMs (clock (fst (updateClock now m))) = 0 \<Longrightarrow>
   status (fst (updateClock now m)) = Finished \<and>
   result (fst (updateClock now m)) = Some \<lparr> winner = WWhite, reason = Timeout \<rparr>"
  by (cases "turn m") (simp_all add: updateClock_def Let_def charge_def split: if_splits)

text \<open>
  C4, as the code has it. \<^verbatim>\<open>server.js\<close> sets no timer: \<^verbatim>\<open>updateClock\<close> is called by
  \<^verbatim>\<open>makeMove\<close> only. An event other than \<^verbatim>\<open>make_move\<close> leaves every existing session as it
  was, at whatever time it arrives. \<^verbatim>\<open>updateClock\<close> takes the elapsed time, clamped at zero,
  from the side whose turn it is and, when a budget is zero afterwards, finishes the
  session on time with the other side as the winner.
\<close>

theorem sessions_change_only_in_make_move:
  "((\<forall>sid d now. ev \<noteq> MakeMove sid d now) \<and> mid < next_uuid st \<longrightarrow>
      matches (step E st ev) mid = matches st mid) \<and>
   budget (turn m) (clock (fst (updateClock now m))) =
     max 0 (budget (turn m) (clock m) - (now - lastMoveTs (clock m))) \<and>
   (whiteMs (clock (fst (updateClock now m))) = 0 \<longrightarrow>
      status (fst (updateClock now m)) = Finished \<and>
      result (fst (updateClock now m)) = Some \<lparr> winner = WBlack, reason = Timeout \<rparr>) \<and>
   (whiteMs (clock (fst (updateClock now m))) \<noteq> 0 \<and> blackMs (clock (fst (updateClock now m))) = 0 \<longrightarrow>
      status (fst (updateClock now m)) = Finished \<and>
      result (fst (updateClock now m)) = Some \<lparr> winner = WWhite, reason = Timeout \<rparr>)"
proof (intro conjI)
  show "(\<forall>sid d now. ev \<noteq> MakeMove sid d now) \<and> mid < next_uuid st \<longrightarrow>
      matches (step E st ev) mid = matches st mid"
    using step_keeps_sessions by blast
qed (use updateClock_charges_turn updateClock_white_flag updateClock_black_flag in blast)+


theorem sessions_change_only_in_make_move_witness:
  "next_uuid two_guests = 3 \<and>
   matches (step sample_chess two_guests (JoinQueue 3 blitz_guest True 1000000)) 2 =
     matches two_guests 2 \<and>
   whiteMs (clock guest_match) = 60000 \<and> turn guest_match = White \<and>
   whiteMs (clock (fst (updateClock 70000 guest_match))) = 0 \<and>
   status (fst (updateClock 70000 guest_match)) = Finished \<and>
   result (fst (updateClock 70000 guest_match)) = Some \<lparr> winner = WBlack, reason = Timeout \<rparr>"
proof -
  note inst = sessions_change_only_in_make_move
    [of "JoinQueue 3 blitz_guest True 1000000" 2 two_guests sample_chess guest_match 70000]
  have n: "next_uuid two_guests = 3"
    by (simp add: two_guests_eq)
  have g: "whiteMs (clock guest_match) = 60000" "turn guest_match = White"
    "lastMoveTs (clock guest_match) = 0"
    by (simp_all add: guest_match_def new_Match_def timeMs_def)
  from inst have "budget White (clock (fst (updateClock 70000 guest_match))) = 0"
    by (simp add: g budget_def)
  then have z: "whiteMs (clock (fst (updateClock 70000 guest_match))) = 0"
    by (simp add: budget_def)
  from inst n have "matches (step sample_chess two_guests (JoinQueue 3 blitz_guest True 1000000)) 2 =
     matches two_guests 2"
    by simp
  with inst z n g show ?thesis by simp
qed

text \<open>
  C4 as stated fails. Match \<open>2\<close> starts at time \<open>0\<close> with \<open>60000\<close> ms for each side and White
  to move. Nobody moves; a third connection registers, joins another queue at time
  \<open>1000000\<close> and disconnects. The match is still active, with no outcome and an untouched
  clock.
\<close>

theorem no_periodic_sweep_counterexample:
  "map_option turn (matches two_guests 2) = Some White \<and>
   map_option clock (matches two_guests 2) =
     Some \<lparr> whiteMs = 60000, blackMs = 60000, lastMoveTs = 0 \<rparr> \<and>
   map_option status (matches (foldl (step sample_chess) two_guests third_party_events) 2) =
     Some Active \<and>
   map_option result (matches (foldl (step sample_chess) two_guests third_party_events) 2) =
     Some None \<and>
   map_option clock (matches (foldl (step sample_chess) two_guests third_party_events) 2) =
     Some \<lparr> whiteMs = 60000, blackMs = 60000, lastMoveTs = 0 \<rparr>"
  by (simp add: two_guests_eq third_party_events_def blitz_guest_def guest_match_def
      handler_defs AList.delete_eq)

end
